theory Spec2Isabelle
  imports Main
begin

section \<open>Go strings\<close>

text \<open>
  A Go \<open>string\<close> is a sequence of bytes, here a \<open>char list\<close>. The functions of
  package \<open>strings\<close> that \<open>metrics/metric.go\<close> calls are written out on bytes. The
  separators the file passes (\<open>","\<close> and \<open>":"\<close>) are one byte long, so a separator is a
  \<open>char\<close>. Positions are Go \<open>int\<close>s, with \<open>-1\<close> for "not found".
\<close>

fun IndexByte :: "string \<Rightarrow> char \<Rightarrow> int" where
  "IndexByte [] c = -1"
| "IndexByte (x # xs) c =
     (if x = c then 0
      else (let i = IndexByte xs c in if i = -1 then -1 else i + 1))"

fun LastIndexByte :: "string \<Rightarrow> char \<Rightarrow> int" where
  "LastIndexByte [] c = -1"
| "LastIndexByte (x # xs) c =
     (let i = LastIndexByte xs c
      in if i \<noteq> -1 then i + 1 else if x = c then 0 else -1)"

text \<open>
  \<open>s[lo:hi]\<close>. Go panics unless \<open>0 \<le> lo \<le> hi \<le> len(s)\<close>; both slice expressions of
  \<open>ParseMetricName\<close> are reached only with bounds in that range (lemma
  \<open>ParseMetricName_slices_in_range\<close>).
\<close>

definition slice :: "string \<Rightarrow> int \<Rightarrow> int \<Rightarrow> string" where
  "slice s lo hi = take (nat hi - nat lo) (drop (nat lo) s)"

text \<open>
  \<open>genSplit\<close> of package \<open>strings\<close>: at most \<open>k\<close> cuts, each at the next occurrence
  of the separator; what is left is the last piece. \<open>Split\<close> allows as many cuts as
  there are separators, \<open>SplitN\<close> with \<open>n > 0\<close> allows \<open>n - 1\<close>.
\<close>

fun genSplit :: "nat \<Rightarrow> string \<Rightarrow> char \<Rightarrow> string list" where
  "genSplit 0 s c = [s]"
| "genSplit (Suc k) s c =
     (case dropWhile (\<lambda>x. x \<noteq> c) s of
        [] \<Rightarrow> [s]
      | _ # rest \<Rightarrow> takeWhile (\<lambda>x. x \<noteq> c) s # genSplit k rest c)"

definition Split :: "string \<Rightarrow> char \<Rightarrow> string list" where
  "Split s c = genSplit (count_list s c) s c"

definition SplitN :: "string \<Rightarrow> char \<Rightarrow> int \<Rightarrow> string list" where
  "SplitN s c n =
     (if n = 0 then [] else if n < 0 then Split s c else genSplit (nat n - 1) s c)"

text \<open>
  \<open>strings.Trim(s, cutset)\<close> for a cutset of ASCII bytes: every leading and every
  trailing byte that occurs in the cutset is removed.
\<close>

definition Trim :: "string \<Rightarrow> string \<Rightarrow> string" where
  "Trim s cutset =
     dropWhile (\<lambda>x. x \<in> set cutset) (rev (dropWhile (\<lambda>x. x \<in> set cutset) (rev s)))"

text \<open>
  \<open>strings.TrimSpace\<close> removes leading and trailing white space as Unicode defines it
  (\<open>unicode.IsSpace\<close>): U+0009 to U+000D, U+0020, U+0085, U+00A0, U+1680, U+2000 to
  U+200A, U+2028, U+2029, U+202F, U+205F and U+3000. On bytes these are the UTF-8
  encodings below; a byte sequence that is not one of them decodes to no white space
  (an invalid or overlong sequence decodes to U+FFFD).
\<close>

definition space_encodings :: "string list" where
  "space_encodings =
     map (\<lambda>b. [b]) [CHR 0x09, CHR 0x0A, CHR 0x0B, CHR 0x0C, CHR 0x0D, CHR 0x20]
     @ [[CHR 0xC2, CHR 0x85], [CHR 0xC2, CHR 0xA0], [CHR 0xE1, CHR 0x9A, CHR 0x80]]
     @ map (\<lambda>b. [CHR 0xE2, CHR 0x80, b])
         [CHR 0x80, CHR 0x81, CHR 0x82, CHR 0x83, CHR 0x84, CHR 0x85, CHR 0x86, CHR 0x87,
          CHR 0x88, CHR 0x89, CHR 0x8A, CHR 0xA8, CHR 0xA9, CHR 0xAF]
     @ [[CHR 0xE2, CHR 0x81, CHR 0x9F], [CHR 0xE3, CHR 0x80, CHR 0x80]]"

text \<open>The number of bytes of the white-space character that \<open>s\<close> starts with, or 0.\<close>

definition leading_space :: "string \<Rightarrow> nat" where
  "leading_space s =
     (case find (\<lambda>p. take (length p) s = p) space_encodings of
        None \<Rightarrow> 0
      | Some p \<Rightarrow> length p)"

text \<open>The number of bytes of the white-space character that \<open>s\<close> ends with, or 0.\<close>

definition trailing_space :: "string \<Rightarrow> nat" where
  "trailing_space s =
     (case find (\<lambda>p. take (length p) (rev s) = rev p) space_encodings of
        None \<Rightarrow> 0
      | Some p \<Rightarrow> length p)"

function TrimLeftSpace :: "string \<Rightarrow> string" where
  "TrimLeftSpace s =
     (if leading_space s = 0 then s else TrimLeftSpace (drop (leading_space s) s))"
  by pat_completeness auto
termination
proof (relation "measure length")
  show "wf (measure length)" by simp
next
  fix s :: string
  assume "leading_space s \<noteq> 0"
  moreover have "leading_space s \<le> length s"
  proof (cases "find (\<lambda>p. take (length p) s = p) space_encodings")
    case None
    then show ?thesis by (simp add: leading_space_def)
  next
    case (Some p)
    then have "take (length p) s = p" by (auto simp: find_Some_iff)
    then have "length p \<le> length s"
      by (metis length_take min.cobounded1)
    with Some show ?thesis by (simp add: leading_space_def)
  qed
  ultimately show "(drop (leading_space s) s, s) \<in> measure length" by simp
qed

function TrimRightSpace :: "string \<Rightarrow> string" where
  "TrimRightSpace s =
     (if trailing_space s = 0 then s
      else TrimRightSpace (take (length s - trailing_space s) s))"
  by pat_completeness auto
termination
proof (relation "measure length")
  show "wf (measure length)" by simp
next
  fix s :: string
  assume "trailing_space s \<noteq> 0"
  moreover have "trailing_space s \<le> length s"
  proof (cases "find (\<lambda>p. take (length p) (rev s) = rev p) space_encodings")
    case None
    then show ?thesis by (simp add: trailing_space_def)
  next
    case (Some p)
    then have "take (length p) (rev s) = rev p" by (auto simp: find_Some_iff)
    then have "length p \<le> length s"
      by (metis length_rev length_take min.cobounded1)
    with Some show ?thesis by (simp add: trailing_space_def)
  qed
  ultimately show "(take (length s - trailing_space s) s, s) \<in> measure length" by simp
qed

declare TrimLeftSpace.simps [simp del]
declare TrimRightSpace.simps [simp del]

definition TrimSpace :: "string \<Rightarrow> string" where
  "TrimSpace s = TrimRightSpace (TrimLeftSpace s)"

section \<open>Go errors\<close>

text \<open>
  \<open>errors.New(text)\<close> is \<open>errorString text\<close>. \<open>fmt.Errorf(format, operands)\<close> is kept
  unrendered, as its format and its string operands: \<open>fmtError\<close> when the format has
  no \<open>%w\<close>, \<open>wrapError\<close> when the format starts with \<open>%w\<close>, whose operand is the
  wrapped error that \<open>Unwrap\<close> returns. \<open>errors_Is\<close> is \<open>errors.Is\<close>: it walks the
  chain of wrapped errors.
\<close>

datatype go_error =
    errorString string
  | fmtError string "string list"
  | wrapError string go_error "string list"

primrec errors_Is :: "go_error \<Rightarrow> go_error \<Rightarrow> bool" where
  "errors_Is (errorString s) target = (errorString s = target)"
| "errors_Is (fmtError f ops) target = (fmtError f ops = target)"
| "errors_Is (wrapError f e ops) target = (wrapError f e ops = target \<or> errors_Is e target)"

section \<open>ParseMetricName\<close>

definition ErrMetricNameParsing :: go_error where
  "ErrMetricNameParsing = errorString ''parsing metric name failed''"

text \<open>
  The loop over the tag definitions. It stops at the first malformed one, with an
  error whose operand is that definition as it stands in the input; otherwise every
  definition is replaced by its trimmed text.
\<close>

fun checkTags :: "string list \<Rightarrow> go_error + string list" where
  "checkTags [] = Inr []"
| "checkTags (t # ts) =
     (let keyValue = SplitN t CHR '':'' 2
      in if length keyValue \<noteq> 2 \<or> keyValue ! 1 = ''''
         then Inl (wrapError ''%w, metric %q tag expression is malformed''
                     ErrMetricNameParsing [t])
         else (case checkTags ts of
                 Inl e \<Rightarrow> Inl e
               | Inr ts' \<Rightarrow> Inr (TrimSpace t # ts')))"

definition ParseMetricName :: "string \<Rightarrow> string \<times> string list \<times> go_error option" where
  "ParseMetricName name =
     (let openingTokenPos = IndexByte name CHR ''{'';
          closingTokenPos = LastIndexByte name CHR ''}'';
          containsOpeningToken = (openingTokenPos \<noteq> -1);
          containsClosingToken = (closingTokenPos \<noteq> -1)
      in if \<not> containsOpeningToken \<and> \<not> containsClosingToken then (name, [], None)
         else if (containsOpeningToken \<and> \<not> containsClosingToken)
               \<or> (\<not> containsOpeningToken \<and> containsClosingToken)
         then ('''', [],
               Some (wrapError ''%w, metric %q has unmatched opening/close curly brace''
                       ErrMetricNameParsing [name]))
         else if closingTokenPos < openingTokenPos
         then ('''', [],
               Some (wrapError ''%w, metric %q closing curly brace appears before opening one''
                       ErrMetricNameParsing [name]))
         else if closingTokenPos \<noteq> int (length name) - 1
         then ('''', [],
               Some (wrapError ''%w, metric %q lacks a closing curly brace in its last position''
                       ErrMetricNameParsing [name]))
         else (case checkTags (Split (slice name (openingTokenPos + 1) closingTokenPos) CHR '','') of
                 Inl e \<Rightarrow> ('''', [], Some e)
               | Inr tags \<Rightarrow> (slice name 0 openingTokenPos, tags, None)))"

section \<open>Metrics and submetrics\<close>

text \<open>
  Modelled from the spec: \<open>MetricType\<close> is declared outside \<open>metric.go\<close>. The spec
  gives the kinds Counter, Gauge, Trend and Rate; the type is a Go integer type, so
  any other value is possible too, and \<open>newMetric\<close> has a \<open>default\<close> branch for it.
\<close>

datatype MetricType = Counter | Gauge | Trend | Rate | UnknownMetricType int

text \<open>
  Modelled from the spec: \<open>ValueType\<close> is declared outside \<open>metric.go\<close>; the spec
  names the classifications default, time and data volume.
\<close>

datatype ValueType = Default | Time | Data | UnknownValueType int

text \<open>
  Modelled from the spec: the sinks are declared outside \<open>metric.go\<close>, which only
  chooses the kind of sink and creates it empty.
\<close>

datatype Sink = CounterSink | GaugeSink | TrendSink | RateSink

text \<open>
  Modelled from the spec: \<open>SampleTags\<close>, \<open>IntoSampleTags\<close> and \<open>IsEqual\<close> are declared
  outside \<open>metric.go\<close>. The spec describes a tag set as an unordered collection of
  key-to-value pairs, built from a key-to-value mapping, with an equality that does not
  depend on order.
\<close>

type_synonym SampleTags = "string \<rightharpoonup> string"

definition IntoSampleTags :: "(string \<rightharpoonup> string) \<Rightarrow> SampleTags" where
  "IntoSampleTags rawTags = rawTags"

definition IsEqual :: "SampleTags \<Rightarrow> SampleTags \<Rightarrow> bool" where
  "IsEqual st other = (st = other)"

text \<open>
  Pointers are addresses into a store; \<open>None\<close> is \<open>nil\<close>. The type of the
  \<open>Thresholds\<close> field is declared outside \<open>metric.go\<close> and stays a type parameter;
  \<open>default\<close> is its zero value. \<open>Tainted\<close> is a \<open>null.Bool\<close>.
\<close>

record 'th Metric =
  Name :: string
  Type :: MetricType
  Contains :: ValueType
  Tainted :: "bool option"
  Thresholds :: 'th
  Submetrics :: "nat option list"
  Sub :: "nat option"
  Sink :: "Sink option"
  Observed :: bool

record Submetric =
  Name :: string
  Suffix :: string
  Tags :: SampleTags
  Metric :: "nat option"
  Parent :: "nat option"

record 'th store =
  metrics :: "'th Metric list"
  submetrics :: "Submetric list"

datatype panic = NilDereference

definition metric_at :: "'th store \<Rightarrow> nat option \<Rightarrow> 'th Metric option" where
  "metric_at h p =
     (case p of
        None \<Rightarrow> None
      | Some a \<Rightarrow> if a < length (metrics h) then Some (metrics h ! a) else None)"

definition submetric_at :: "'th store \<Rightarrow> nat option \<Rightarrow> Submetric option" where
  "submetric_at h p =
     (case p of
        None \<Rightarrow> None
      | Some a \<Rightarrow> if a < length (submetrics h) then Some (submetrics h ! a) else None)"

definition new_Metric :: "'th Metric \<Rightarrow> 'th store \<Rightarrow> nat \<times> 'th store" where
  "new_Metric v h = (length (metrics h), h\<lparr>metrics := metrics h @ [v]\<rparr>)"

definition new_Submetric :: "Submetric \<Rightarrow> 'th store \<Rightarrow> nat \<times> 'th store" where
  "new_Submetric v h = (length (submetrics h), h\<lparr>submetrics := submetrics h @ [v]\<rparr>)"

definition update_Metric ::
  "nat \<Rightarrow> ('th Metric \<Rightarrow> 'th Metric) \<Rightarrow> 'th store \<Rightarrow> 'th store" where
  "update_Metric a f h = h\<lparr>metrics := (metrics h)[a := f (metrics h ! a)]\<rparr>"

definition update_Submetric ::
  "nat \<Rightarrow> (Submetric \<Rightarrow> Submetric) \<Rightarrow> 'th store \<Rightarrow> 'th store" where
  "update_Submetric a f h = h\<lparr>submetrics := (submetrics h)[a := f (submetrics h ! a)]\<rparr>"

text \<open>\<open>newMetric\<close> returns \<open>nil\<close> for a kind it has no sink for.\<close>

definition newMetric ::
  "string \<Rightarrow> MetricType \<Rightarrow> ValueType list \<Rightarrow> ('th::default) store
     \<Rightarrow> nat option \<times> 'th store" where
  "newMetric name mt vt h =
     (let valueType = (if length vt > 0 then vt ! 0 else Default);
          sink = (case mt of
                    Counter \<Rightarrow> Some CounterSink
                  | Gauge \<Rightarrow> Some GaugeSink
                  | Trend \<Rightarrow> Some TrendSink
                  | Rate \<Rightarrow> Some RateSink
                  | UnknownMetricType _ \<Rightarrow> None)
      in case sink of
           None \<Rightarrow> (None, h)
         | Some _ \<Rightarrow>
             (let (a, h') =
                new_Metric \<lparr>Metric.Name = name, Type = mt, Contains = valueType,
                            Tainted = None, Thresholds = default, Submetrics = [],
                            Sub = None, Sink = sink, Observed = False\<rparr> h
              in (Some a, h')))"

section \<open>AddSubmetric\<close>

text \<open>The cutset of the two quote characters, \<open>"\<close> and \<open>'\<close>.\<close>

definition quotes :: string where
  "quotes = [CHR 0x22, CHR 0x27]"

text \<open>
  The body of the loop over the comma-separated segments: an empty segment is skipped,
  a segment without \<open>:\<close> stores its key with the empty value, any other stores key and
  value. \<open>SplitN\<close> with \<open>n = 2\<close> returns one or two parts, so \<open>parts[0]\<close> exists, and
  \<open>parts[1]\<close> is read only when there are two.
\<close>

definition addRawTag :: "(string \<rightharpoonup> string) \<Rightarrow> string \<Rightarrow> (string \<rightharpoonup> string)" where
  "addRawTag rawTags kv =
     (if kv = '''' then rawTags
      else (let parts = SplitN kv CHR '':'' 2;
                key = Trim (TrimSpace (parts ! 0)) quotes
            in if length parts \<noteq> 2 then rawTags(key \<mapsto> '''')
               else (let value = Trim (TrimSpace (parts ! 1)) quotes
                     in rawTags(key \<mapsto> value))))"

definition rawTagsOf :: "string list \<Rightarrow> (string \<rightharpoonup> string)" where
  "rawTagsOf kvs = foldl addRawTag Map.empty kvs"

text \<open>
  The loop over the parent's submetrics: the first one whose tags equal the new tags,
  if any. Reading \<open>sm.Tags\<close> through a \<open>nil\<close> entry panics.
\<close>

fun findEqual ::
  "'th store \<Rightarrow> SampleTags \<Rightarrow> nat option list \<Rightarrow> panic + Submetric option" where
  "findEqual h tags [] = Inr None"
| "findEqual h tags (sm # sms) =
     (case submetric_at h sm of
        None \<Rightarrow> Inl NilDereference
      | Some s \<Rightarrow> if IsEqual (Tags s) tags then Inr (Some s) else findEqual h tags sms)"

text \<open>
  \<open>AddSubmetric\<close> on the metric that \<open>m\<close> points to. The result is the pair the Go
  function returns, a pointer to the submetric and an error, or a panic; with it comes
  the store after the call. A \<open>nil\<close> receiver panics at the first read of one of its
  fields, on either path, before anything is written. The fields of \<open>*m\<close> are not
  written before the last statement, so they are read once, into \<open>parent\<close>; the last
  statement reads \<open>m.Submetrics\<close> from the store as it then is.
\<close>

definition AddSubmetric ::
  "nat option \<Rightarrow> string \<Rightarrow> ('th::default) store
     \<Rightarrow> (panic + nat option \<times> go_error option) \<times> 'th store" where
  "AddSubmetric m keyValues0 h =
     (case metric_at h m of
        None \<Rightarrow> (Inl NilDereference, h)
      | Some parent \<Rightarrow>
          (let keyValues = TrimSpace keyValues0
           in if length keyValues = 0
              then (Inr (None,
                      Some (fmtError ''submetric criteria for metric '%s' cannot be empty''
                              [Metric.Name parent])), h)
              else
                (let kvs = Split keyValues CHR '','';
                     tags = IntoSampleTags (rawTagsOf kvs)
                 in case findEqual h tags (Submetrics parent) of
                      Inl p \<Rightarrow> (Inl p, h)
                    | Inr (Some sm) \<Rightarrow>
                        (Inr (None,
                           Some (fmtError
                                   ''sub-metric with params '%s' already exists for metric %s: %s''
                                   [keyValues, Metric.Name parent, Submetric.Name sm])), h)
                    | Inr None \<Rightarrow>
                        (let subMetric =
                               \<lparr>Submetric.Name = Metric.Name parent @ ''{'' @ keyValues @ ''}'',
                                Suffix = keyValues, Tags = tags, Metric = None, Parent = m\<rparr>;
                             (sp, h1) = new_Submetric subMetric h;
                             (subMetricMetric, h2) =
                               newMetric (Submetric.Name subMetric) (Type parent)
                                 [Contains parent] h1
                         in case subMetricMetric of
                              None \<Rightarrow> (Inl NilDereference, h2)
                            | Some ma \<Rightarrow>
                                (let h3 = update_Metric ma (\<lambda>x. x\<lparr>Sub := Some sp\<rparr>) h2;
                                     h4 = update_Submetric sp
                                            (\<lambda>x. x\<lparr>Metric := Some ma\<rparr>) h3;
                                     h5 = update_Metric (the m)
                                            (\<lambda>x. x\<lparr>Submetrics := Submetrics x @ [Some sp]\<rparr>) h4
                                 in (Inr (Some sp, None), h5))))))"

section \<open>Notions used to state the properties\<close>

text \<open>\<open>strings.Join\<close>: the elements with the separator between them.\<close>

fun Join :: "string list \<Rightarrow> string \<Rightarrow> string" where
  "Join [] sep = []"
| "Join [x] sep = x"
| "Join (x # y # ys) sep = x @ sep @ Join (y # ys) sep"

text \<open>
  No tag set of the list is equal to a later one, with the earlier one as the receiver
  of \<open>IsEqual\<close>, as in the loop of \<open>AddSubmetric\<close>.
\<close>

fun noEqualTags :: "SampleTags list \<Rightarrow> bool" where
  "noEqualTags [] = True"
| "noEqualTags (t # ts) = ((\<forall>u\<in>set ts. \<not> IsEqual t u) \<and> noEqualTags ts)"

text \<open>
  The metric that \<open>m\<close> points to exists, every entry of its \<open>Submetrics\<close> points to a
  submetric, and no two of these submetrics have equal tag sets.
\<close>

definition distinctSubmetrics :: "'th store \<Rightarrow> nat option \<Rightarrow> bool" where
  "distinctSubmetrics h m =
     (case metric_at h m of
        None \<Rightarrow> False
      | Some parent \<Rightarrow>
          list_all (\<lambda>p. submetric_at h p \<noteq> None) (Submetrics parent)
          \<and> noEqualTags (map (\<lambda>p. Tags (the (submetric_at h p))) (Submetrics parent)))"

text \<open>
  A sequence of white-space characters: the encodings of some white-space code points,
  one after the other.
\<close>

definition whiteSpace :: "string \<Rightarrow> bool" where
  "whiteSpace s = (\<exists>ps. set ps \<subseteq> set space_encodings \<and> s = concat ps)"

text \<open>
  A store with one metric and no submetric: what \<open>newMetric("http_reqs", Counter)\<close>
  leaves in the empty store. The metric is at address 0.
\<close>

definition exampleStore :: "unit store" where
  "exampleStore = snd (newMetric ''http_reqs'' Counter [] \<lparr>metrics = [], submetrics = []\<rparr>)"

text \<open>The store after \<open>AddSubmetric("status:200,method:GET")\<close> on that metric.\<close>

definition exampleStore1 :: "unit store" where
  "exampleStore1 = snd (AddSubmetric (Some 0) ''status:200,method:GET'' exampleStore)"

text \<open>The clause \<open>"a':''v''\<close>: a key in mismatched quotes, a value in doubled quotes.\<close>

definition quotedClause :: string where
  "quotedClause =
     [CHR 0x22, CHR ''a'', CHR 0x27, CHR '':'', CHR 0x27, CHR 0x27, CHR ''v'', CHR 0x27, CHR 0x27]"

section \<open>Facts about the string functions\<close>

lemma IndexByte_ge: "-1 \<le> IndexByte s c"
  by (induction s) (auto simp: Let_def)

lemma IndexByte_notin: "(IndexByte s c = -1) = (c \<notin> set s)"
proof (induction s)
  case Nil
  show ?case by simp
next
  case (Cons x xs)
  have "-1 \<le> IndexByte xs c" by (rule IndexByte_ge)
  with Cons show ?case by (auto simp: Let_def)
qed

lemma IndexByte_append: "c \<notin> set pre \<Longrightarrow> IndexByte (pre @ c # post) c = int (length pre)"
  by (induction pre) (auto simp: Let_def)

lemma IndexByte_nth:
  "IndexByte s c \<noteq> -1 \<Longrightarrow>
     0 \<le> IndexByte s c \<and> IndexByte s c < int (length s) \<and> s ! nat (IndexByte s c) = c"
proof (induction s)
  case Nil
  then show ?case by simp
next
  case (Cons x xs)
  show ?case
  proof (cases "x = c")
    case True
    then show ?thesis by simp
  next
    case False
    with Cons.prems have ne: "IndexByte xs c \<noteq> -1" by (auto simp: Let_def split: if_splits)
    with Cons.IH have "0 \<le> IndexByte xs c" "IndexByte xs c < int (length xs)"
      "xs ! nat (IndexByte xs c) = c" by auto
    with False ne show ?thesis by (auto simp: Let_def nat_add_distrib)
  qed
qed

lemma LastIndexByte_ge: "-1 \<le> LastIndexByte s c"
  by (induction s) (auto simp: Let_def)

lemma LastIndexByte_notin: "(LastIndexByte s c = -1) = (c \<notin> set s)"
proof (induction s)
  case Nil
  show ?case by simp
next
  case (Cons x xs)
  have "-1 \<le> LastIndexByte xs c" by (rule LastIndexByte_ge)
  with Cons show ?case by (auto simp: Let_def)
qed

lemma LastIndexByte_append:
  "c \<notin> set post \<Longrightarrow> LastIndexByte (pre @ c # post) c = int (length pre)"
proof (induction pre)
  case Nil
  then have "LastIndexByte post c = -1" by (simp add: LastIndexByte_notin)
  then show ?case by simp
next
  case (Cons x pre)
  then show ?case by (simp add: Let_def)
qed

lemma LastIndexByte_nth:
  "LastIndexByte s c \<noteq> -1 \<Longrightarrow>
     LastIndexByte s c < int (length s) \<and> s ! nat (LastIndexByte s c) = c"
proof (induction s)
  case Nil
  then show ?case by simp
next
  case (Cons x xs)
  have ge: "-1 \<le> LastIndexByte xs c" by (rule LastIndexByte_ge)
  show ?case
  proof (cases "LastIndexByte xs c = -1")
    case True
    with Cons.prems show ?thesis by (auto simp: Let_def split: if_splits)
  next
    case False
    with Cons.IH have "LastIndexByte xs c < int (length xs)" "xs ! nat (LastIndexByte xs c) = c"
      by auto
    moreover from False ge have "0 \<le> LastIndexByte xs c" by arith
    ultimately show ?thesis using False by (auto simp: Let_def nat_add_distrib)
  qed
qed

lemma LastIndexByte_last:
  assumes "LastIndexByte s c \<noteq> -1" "LastIndexByte s c = int (length s) - 1"
  shows "s \<noteq> [] \<and> last s = c"
proof -
  from assms(1) have ne: "s \<noteq> []" by auto
  from LastIndexByte_nth[OF assms(1)] assms(2) have "s ! (length s - 1) = c"
    by (simp add: nat_diff_distrib')
  with ne show ?thesis by (simp add: last_conv_nth)
qed

text \<open>The bounds of the two slice expressions of \<open>ParseMetricName\<close> are in range.\<close>

lemma ParseMetricName_slices_in_range:
  assumes "IndexByte name CHR ''{'' \<noteq> -1" "LastIndexByte name CHR ''}'' \<noteq> -1"
    and "\<not> LastIndexByte name CHR ''}'' < IndexByte name CHR ''{''"
  shows "0 \<le> IndexByte name CHR ''{''
         \<and> IndexByte name CHR ''{'' + 1 \<le> LastIndexByte name CHR ''}''
         \<and> LastIndexByte name CHR ''}'' \<le> int (length name)"
proof -
  from IndexByte_nth[OF assms(1)]
  have o: "0 \<le> IndexByte name CHR ''{''" "name ! nat (IndexByte name CHR ''{'') = CHR ''{''"
    by auto
  from LastIndexByte_nth[OF assms(2)]
  have c: "LastIndexByte name CHR ''}'' < int (length name)"
    "name ! nat (LastIndexByte name CHR ''}'') = CHR ''}''" by auto
  from o(2) c(2) have "IndexByte name CHR ''{'' \<noteq> LastIndexByte name CHR ''}''" by auto
  with assms(3) o(1) c(1) show ?thesis by arith
qed

lemma slice_middle:
  "slice (a @ x # b @ [y]) (int (length a) + 1) (int (length a) + 1 + int (length b)) = b"
proof -
  have "nat (int (length a) + 1) = Suc (length a)" by simp
  moreover have "nat (int (length a) + 1 + int (length b)) = Suc (length a) + length b"
    by (simp add: nat_add_distrib)
  ultimately show ?thesis by (simp add: slice_def)
qed

lemma slice_front: "slice (a @ b) 0 (int (length a)) = a"
  by (simp add: slice_def)

lemma genSplit_no_sep: "c \<notin> set s \<Longrightarrow> genSplit k s c = [s]"
proof -
  assume "c \<notin> set s"
  then have "dropWhile (\<lambda>x. x \<noteq> c) s = []" by auto
  then show ?thesis by (cases k) (simp_all only: genSplit.simps list.case)
qed

lemma genSplit_append_sep:
  "c \<notin> set a \<Longrightarrow> genSplit (Suc k) (a @ c # r) c = a # genSplit k r c"
proof -
  assume a: "c \<notin> set a"
  then have "dropWhile (\<lambda>x. x \<noteq> c) (a @ c # r) = c # r"
    by (subst dropWhile_append2) auto
  moreover from a have "takeWhile (\<lambda>x. x \<noteq> c) (a @ c # r) = a"
    by (subst takeWhile_append2) auto
  ultimately show ?thesis by simp
qed

lemma count_list_notin: "c \<notin> set a \<Longrightarrow> count_list a c = 0"
  by (induction a) auto

lemma Split_no_sep: "c \<notin> set s \<Longrightarrow> Split s c = [s]"
  by (simp add: Split_def genSplit_no_sep)

lemma Split_append_sep: "c \<notin> set a \<Longrightarrow> Split (a @ c # r) c = a # Split r c"
proof -
  assume a: "c \<notin> set a"
  then have "count_list (a @ c # r) c = Suc (count_list r c)"
    by (simp add: count_list_notin)
  with genSplit_append_sep[OF a, of "count_list r c" r] show ?thesis
    unfolding Split_def by (simp only:)
qed

lemma Split_Join:
  "cs \<noteq> [] \<Longrightarrow> \<forall>x\<in>set cs. c \<notin> set x \<Longrightarrow> Split (Join cs [c]) c = cs"
proof (induction cs "[c]" rule: Join.induct)
  case 1
  then show ?case by simp
next
  case (2 x)
  then show ?case by (simp add: Split_no_sep)
next
  case (3 x y ys)
  then show ?case by (simp add: Split_append_sep)
qed

lemma SplitN_2:
  "SplitN t c 2 =
     (case dropWhile (\<lambda>x. x \<noteq> c) t of
        [] \<Rightarrow> [t]
      | _ # rest \<Rightarrow> [takeWhile (\<lambda>x. x \<noteq> c) t, rest])"
proof -
  have "nat 2 - 1 = Suc 0" by simp
  then have "SplitN t c 2 = genSplit (Suc 0) t c" by (simp add: SplitN_def)
  then show ?thesis by (simp only: genSplit.simps)
qed

lemma SplitN_2_no_sep: "c \<notin> set t \<Longrightarrow> SplitN t c 2 = [t]"
proof -
  assume "c \<notin> set t"
  then have "dropWhile (\<lambda>x. x \<noteq> c) t = []" by auto
  then show ?thesis by (simp only: SplitN_2 list.case)
qed

lemma SplitN_2_first: "c \<notin> set a \<Longrightarrow> SplitN (a @ c # r) c 2 = [a, r]"
proof -
  assume a: "c \<notin> set a"
  then have "dropWhile (\<lambda>x. x \<noteq> c) (a @ c # r) = c # r"
    by (subst dropWhile_append2) auto
  moreover from a have "takeWhile (\<lambda>x. x \<noteq> c) (a @ c # r) = a"
    by (subst takeWhile_append2) auto
  ultimately show ?thesis by (simp add: SplitN_2)
qed

lemma SplitN_2_value:
  assumes "v \<noteq> []"
  shows "\<exists>a r. SplitN (k @ c # v) c 2 = [a, r] \<and> r \<noteq> []"
proof (cases "c \<in> set k")
  case False
  with assms show ?thesis by (simp add: SplitN_2_first)
next
  case True
  then obtain a b where k: "k = a @ c # b" "c \<notin> set a"
    by (auto dest: split_list_first)
  then have "SplitN (k @ c # v) c 2 = [a, b @ c # v]"
    using SplitN_2_first[of c a "b @ c # v"] by simp
  then show ?thesis by simp
qed

section \<open>Facts about TrimSpace\<close>

lemma space_encodings_nonempty: "p \<in> set space_encodings \<Longrightarrow> p \<noteq> []"
  by (auto simp: space_encodings_def)

lemma whiteSpace_Nil: "whiteSpace []"
  unfolding whiteSpace_def by (rule exI[of _ "[]"]) simp

lemma whiteSpace_Cons:
  assumes "p \<in> set space_encodings" and "whiteSpace w"
  shows "whiteSpace (p @ w)"
proof -
  from assms(2) obtain ps where ps: "set ps \<subseteq> set space_encodings" "w = concat ps"
    by (auto simp: whiteSpace_def)
  with assms(1) have "set (p # ps) \<subseteq> set space_encodings \<and> p @ w = concat (p # ps)" by simp
  then show ?thesis unfolding whiteSpace_def by blast
qed

lemma whiteSpace_snoc:
  assumes "whiteSpace w" and "p \<in> set space_encodings"
  shows "whiteSpace (w @ p)"
proof -
  from assms(1) obtain ps where ps: "set ps \<subseteq> set space_encodings" "w = concat ps"
    by (auto simp: whiteSpace_def)
  with assms(2) have "set (ps @ [p]) \<subseteq> set space_encodings \<and> w @ p = concat (ps @ [p])"
    by simp
  then show ?thesis unfolding whiteSpace_def by blast
qed

lemma leading_space_zero:
  assumes "leading_space s = 0" and "p \<in> set space_encodings"
  shows "s \<noteq> p @ x"
proof
  assume s: "s = p @ x"
  show False
  proof (cases "find (\<lambda>p. take (length p) s = p) space_encodings")
    case None
    with assms(2) s show False by (auto simp: find_None_iff)
  next
    case (Some q)
    then have "q \<in> set space_encodings" by (auto simp: find_Some_iff)
    then have "q \<noteq> []" by (rule space_encodings_nonempty)
    with Some assms(1) show False by (simp add: leading_space_def)
  qed
qed

lemma leading_space_pos:
  assumes "leading_space s \<noteq> 0"
  shows "take (leading_space s) s \<in> set space_encodings"
proof (cases "find (\<lambda>p. take (length p) s = p) space_encodings")
  case None
  with assms show ?thesis by (simp add: leading_space_def)
next
  case (Some q)
  then have "q \<in> set space_encodings" "take (length q) s = q"
    by (auto simp: find_Some_iff)
  with Some show ?thesis by (simp add: leading_space_def)
qed

lemma trailing_space_zero:
  assumes "trailing_space s = 0" and "p \<in> set space_encodings"
  shows "s \<noteq> x @ p"
proof
  assume s: "s = x @ p"
  then have t: "take (length p) (rev s) = rev p" by simp
  show False
  proof (cases "find (\<lambda>p. take (length p) (rev s) = rev p) space_encodings")
    case None
    with assms(2) t show False by (auto simp: find_None_iff)
  next
    case (Some q)
    then have "q \<in> set space_encodings" by (auto simp: find_Some_iff)
    then have "q \<noteq> []" by (rule space_encodings_nonempty)
    with Some assms(1) show False by (simp add: trailing_space_def)
  qed
qed

lemma trailing_space_pos:
  assumes "trailing_space s \<noteq> 0"
  shows "drop (length s - trailing_space s) s \<in> set space_encodings"
proof (cases "find (\<lambda>p. take (length p) (rev s) = rev p) space_encodings")
  case None
  with assms show ?thesis by (simp add: trailing_space_def)
next
  case (Some q)
  then have q: "q \<in> set space_encodings" "take (length q) (rev s) = rev q"
    by (auto simp: find_Some_iff)
  from q(2) have "rev (take (length q) (rev s)) = q" by simp
  then have "drop (length s - length q) s = q" by (simp add: rev_take)
  with Some q(1) show ?thesis by (simp add: trailing_space_def)
qed

lemma TrimLeftSpace_decompose:
  "\<exists>pre. s = pre @ TrimLeftSpace s \<and> whiteSpace pre \<and> leading_space (TrimLeftSpace s) = 0"
proof (induction s rule: TrimLeftSpace.induct)
  case (1 s)
  show ?case
  proof (cases "leading_space s = 0")
    case True
    then have "TrimLeftSpace s = s" by (simp add: TrimLeftSpace.simps)
    with True whiteSpace_Nil show ?thesis by (intro exI[of _ "[]"]) simp
  next
    case False
    let ?n = "leading_space s"
    from False have eq: "TrimLeftSpace s = TrimLeftSpace (drop ?n s)"
      by (subst TrimLeftSpace.simps) simp
    from 1[OF False] obtain pre where pre: "drop ?n s = pre @ TrimLeftSpace (drop ?n s)"
      "whiteSpace pre" "leading_space (TrimLeftSpace (drop ?n s)) = 0" by blast
    have "s = take ?n s @ drop ?n s" by simp
    with pre(1) eq have "s = (take ?n s @ pre) @ TrimLeftSpace s" by (metis append.assoc)
    moreover have "whiteSpace (take ?n s @ pre)"
      using leading_space_pos[OF False] pre(2) by (rule whiteSpace_Cons)
    moreover from pre(3) eq have "leading_space (TrimLeftSpace s) = 0" by simp
    ultimately show ?thesis by blast
  qed
qed

lemma TrimRightSpace_decompose:
  "\<exists>post. s = TrimRightSpace s @ post \<and> whiteSpace post
           \<and> trailing_space (TrimRightSpace s) = 0"
proof (induction s rule: TrimRightSpace.induct)
  case (1 s)
  show ?case
  proof (cases "trailing_space s = 0")
    case True
    then have "TrimRightSpace s = s" by (simp add: TrimRightSpace.simps)
    with True whiteSpace_Nil show ?thesis by (intro exI[of _ "[]"]) simp
  next
    case False
    let ?n = "length s - trailing_space s"
    from False have eq: "TrimRightSpace s = TrimRightSpace (take ?n s)"
      by (subst TrimRightSpace.simps) simp
    from 1[OF False] obtain post where post: "take ?n s = TrimRightSpace (take ?n s) @ post"
      "whiteSpace post" "trailing_space (TrimRightSpace (take ?n s)) = 0" by blast
    have "s = take ?n s @ drop ?n s" by simp
    with post(1) eq have "s = TrimRightSpace s @ (post @ drop ?n s)" by (metis append.assoc)
    moreover have "whiteSpace (post @ drop ?n s)"
      using post(2) trailing_space_pos[OF False] by (rule whiteSpace_snoc)
    moreover from post(3) eq have "trailing_space (TrimRightSpace s) = 0" by simp
    ultimately show ?thesis by blast
  qed
qed

text \<open>
  What \<open>TrimSpace\<close> returns differs from its argument by white space in front and
  behind only, and neither starts nor ends with a white-space character.
\<close>

lemma TrimSpace_decompose:
  "(\<exists>pre post. s = pre @ TrimSpace s @ post \<and> whiteSpace pre \<and> whiteSpace post)
   \<and> (\<forall>p\<in>set space_encodings. \<forall>x. TrimSpace s \<noteq> p @ x \<and> TrimSpace s \<noteq> x @ p)"
proof -
  let ?t = "TrimLeftSpace s"
  from TrimLeftSpace_decompose[of s] obtain pre where
    pre: "s = pre @ ?t" "whiteSpace pre" "leading_space ?t = 0" by blast
  from TrimRightSpace_decompose[of ?t] obtain post where
    post: "?t = TrimSpace s @ post" "whiteSpace post" "trailing_space (TrimSpace s) = 0"
    unfolding TrimSpace_def by blast
  from pre(1) post(1) have "s = pre @ TrimSpace s @ post" by simp
  with pre(2) post(2)
  have a: "\<exists>pre post. s = pre @ TrimSpace s @ post \<and> whiteSpace pre \<and> whiteSpace post"
    by blast
  have b: "\<forall>p\<in>set space_encodings. \<forall>x. TrimSpace s \<noteq> p @ x \<and> TrimSpace s \<noteq> x @ p"
  proof (intro ballI allI conjI)
    fix p x
    assume p: "p \<in> set space_encodings"
    show "TrimSpace s \<noteq> p @ x"
    proof
      assume "TrimSpace s = p @ x"
      with post(1) have "?t = p @ (x @ post)" by simp
      with leading_space_zero[OF pre(3) p] show False by blast
    qed
    show "TrimSpace s \<noteq> x @ p"
      using post(3) p by (rule trailing_space_zero)
  qed
  from a b show ?thesis by (rule conjI)
qed

section \<open>ParseMetricName: facts\<close>

lemma ParseMetricName_braces:
  assumes "CHR ''{'' \<notin> set base"
  shows "ParseMetricName (base @ ''{'' @ body @ ''}'') =
           (case checkTags (Split body CHR '','') of
              Inl e \<Rightarrow> ('''', [], Some e)
            | Inr tags \<Rightarrow> (base, tags, None))"
proof -
  let ?name = "base @ ''{'' @ body @ ''}''"
  have op: "IndexByte ?name CHR ''{'' = int (length base)"
    using IndexByte_append[OF assms, of "body @ ''}''"] by simp
  have "LastIndexByte ((base @ ''{'' @ body) @ ''}'') CHR ''}'' = int (length (base @ ''{'' @ body))"
    by (rule LastIndexByte_append) simp
  then have cl: "LastIndexByte ?name CHR ''}'' = int (length base) + 1 + int (length body)"
    by simp
  have s1: "slice ?name (int (length base) + 1) (int (length base) + 1 + int (length body)) = body"
    using slice_middle[of base "CHR ''{''" body "CHR ''}''"] by simp
  have s2: "slice ?name 0 (int (length base)) = base"
    by (rule slice_front)
  show ?thesis
    unfolding ParseMetricName_def op cl Let_def s1 s2
    by (simp split: sum.splits)
qed

lemma checkTags_ok:
  "\<forall>t\<in>set ts. \<exists>k v. t = k @ CHR '':'' # v \<and> v \<noteq> [] \<Longrightarrow>
     checkTags ts = Inr (map TrimSpace ts)"
proof (induction ts)
  case Nil
  show ?case by simp
next
  case (Cons t ts)
  then obtain k v where t: "t = k @ CHR '':'' # v" "v \<noteq> []" by auto
  from SplitN_2_value[OF t(2), of k "CHR '':''"] t(1)
  obtain a r where "SplitN t CHR '':'' 2 = [a, r]" "r \<noteq> []" by auto
  with Cons show ?case by simp
qed

lemma checkTags_bad:
  assumes "\<forall>u\<in>set pre. \<exists>k v. u = k @ CHR '':'' # v \<and> v \<noteq> []"
    and "CHR '':'' \<notin> set t \<or> (\<exists>k. CHR '':'' \<notin> set k \<and> t = k @ '':'')"
  shows "checkTags (pre @ t # post) =
           Inl (wrapError ''%w, metric %q tag expression is malformed'' ErrMetricNameParsing [t])"
  using assms(1)
proof (induction pre)
  case Nil
  from assms(2) have "SplitN t CHR '':'' 2 = [t] \<or> (\<exists>k. SplitN t CHR '':'' 2 = [k, []])"
    using SplitN_2_no_sep[of "CHR '':''" t] SplitN_2_first[of "CHR '':''" _ "[]"] by auto
  then show ?case by auto
next
  case (Cons u pre)
  then obtain k v where u: "u = k @ CHR '':'' # v" "v \<noteq> []" by auto
  from SplitN_2_value[OF u(2), of k "CHR '':''"] u(1)
  obtain a r where "SplitN u CHR '':'' 2 = [a, r]" "r \<noteq> []" by auto
  with Cons show ?case by simp
qed

lemma checkTags_error:
  "checkTags ts = Inl e \<Longrightarrow> errors_Is e ErrMetricNameParsing"
proof (induction ts)
  case Nil
  then show ?case by simp
next
  case (Cons t ts)
  then show ?case
    by (auto simp: Let_def ErrMetricNameParsing_def split: if_splits sum.splits)
qed

section \<open>ParseMetricName: the properties\<close>

text \<open>
  C7. A name with neither \<open>{\<close> nor \<open>}\<close> is returned unchanged, with no clauses and no
  error. For a well-formed \<open>name{k1:v1,...,kn:vn}\<close> (no \<open>{\<close> in the name, at least one
  clause, no comma inside a key or a value, no empty value) the result is the text
  before the first \<open>{\<close>, unchanged, and one clause for each \<open>ki:vi\<close>, in their order,
  with no error. Each returned clause is its \<open>ki:vi\<close> trimmed of surrounding white
  space: \<open>ki:vi\<close> is the returned clause with nothing but white-space characters before
  it and after it, and the returned clause neither starts nor ends with a white-space
  character. White space inside a clause stays.
\<close>

theorem ParseMetricName_success:
  "(CHR ''{'' \<notin> set name \<and> CHR ''}'' \<notin> set name \<longrightarrow>
      ParseMetricName name = (name, [], None))
   \<and> (CHR ''{'' \<notin> set base \<and> kvs \<noteq> []
        \<and> (\<forall>(k, v)\<in>set kvs. CHR '','' \<notin> set k \<and> CHR '','' \<notin> set v \<and> v \<noteq> []) \<longrightarrow>
      (\<exists>cs. ParseMetricName
               (base @ ''{'' @ Join (map (\<lambda>(k, v). k @ '':'' @ v) kvs) '','' @ ''}'')
             = (base, cs, None)
          \<and> cs = map (\<lambda>(k, v). TrimSpace (k @ '':'' @ v)) kvs
          \<and> list_all2
               (\<lambda>(k, v) c.
                  (\<exists>pre post. k @ '':'' @ v = pre @ c @ post
                      \<and> whiteSpace pre \<and> whiteSpace post)
                  \<and> (\<forall>p\<in>set space_encodings. \<forall>x. c \<noteq> p @ x \<and> c \<noteq> x @ p))
               kvs cs))"
proof (intro conjI impI)
  assume "CHR ''{'' \<notin> set name \<and> CHR ''}'' \<notin> set name"
  then have "IndexByte name CHR ''{'' = -1" "LastIndexByte name CHR ''}'' = -1"
    by (simp_all add: IndexByte_notin LastIndexByte_notin)
  then show "ParseMetricName name = (name, [], None)"
    by (simp add: ParseMetricName_def)
next
  let ?cs = "map (\<lambda>(k, v). k @ '':'' @ v) kvs"
  let ?res = "map (\<lambda>(k, v). TrimSpace (k @ '':'' @ v)) kvs"
  let ?P = "\<lambda>(k, v) c.
                  (\<exists>pre post. k @ '':'' @ v = pre @ c @ post
                      \<and> whiteSpace pre \<and> whiteSpace post)
                  \<and> (\<forall>p\<in>set space_encodings. \<forall>x. c \<noteq> p @ x \<and> c \<noteq> x @ p)"
  assume a: "CHR ''{'' \<notin> set base \<and> kvs \<noteq> []
        \<and> (\<forall>(k, v)\<in>set kvs. CHR '','' \<notin> set k \<and> CHR '','' \<notin> set v \<and> v \<noteq> [])"
  then have "?cs \<noteq> []" "\<forall>x\<in>set ?cs. CHR '','' \<notin> set x" by auto
  then have sp: "Split (Join ?cs '','') CHR '','' = ?cs"
    using Split_Join[of ?cs "CHR '',''"] by simp
  from a have "\<forall>t\<in>set ?cs. \<exists>k v. t = k @ CHR '':'' # v \<and> v \<noteq> []" by fastforce
  then have ck: "checkTags ?cs = Inr (map TrimSpace ?cs)" by (rule checkTags_ok)
  have mp: "map TrimSpace ?cs = ?res"
    by (simp add: case_prod_unfold)
  from a have "ParseMetricName (base @ ''{'' @ Join ?cs '','' @ ''}'') =
           (case checkTags (Split (Join ?cs '','') CHR '','') of
              Inl e \<Rightarrow> ('''', [], Some e)
            | Inr tags \<Rightarrow> (base, tags, None))"
    by (intro ParseMetricName_braces) simp
  also have "\<dots> = (base, map TrimSpace ?cs, None)"
    by (simp only: sp ck sum.case)
  finally have r: "ParseMetricName (base @ ''{'' @ Join ?cs '','' @ ''}'') = (base, ?res, None)"
    by (simp only: mp)
  have "\<forall>kv\<in>set kvs. ?P kv (case kv of (k, v) \<Rightarrow> TrimSpace (k @ '':'' @ v))"
  proof
    fix kv assume "kv \<in> set kvs"
    obtain k v where kv: "kv = (k, v)" by (cases kv)
    from TrimSpace_decompose[of "k @ '':'' @ v"]
    show "?P kv (case kv of (k, v) \<Rightarrow> TrimSpace (k @ '':'' @ v))"
      unfolding kv by simp
  qed
  then have l: "list_all2 ?P kvs ?res"
    by (simp add: list_all2_conv_all_nth)
  from r l show "\<exists>cs. ParseMetricName (base @ ''{'' @ Join ?cs '','' @ ''}'') = (base, cs, None)
          \<and> cs = ?res \<and> list_all2 ?P kvs cs"
    by blast
qed

theorem ParseMetricName_success_witness:
  "ParseMetricName ''http_reqs'' = (''http_reqs'', [], None)
   \<and> ParseMetricName
       ('' req{ status:200 ,'' @ [CHR 0x09] @ ''method : GET x''
          @ [CHR 0x20, CHR 0xC2, CHR 0xA0] @ ''}'')
       = ('' req'', [''status:200'', ''method : GET x''], None)"
proof -
  have t: "TrimSpace '' status:200 '' = ''status:200''"
    "TrimSpace ([CHR 0x09] @ ''method : GET x'' @ [CHR 0x20, CHR 0xC2, CHR 0xA0])
       = ''method : GET x''"
    by code_simp+
  note th = ParseMetricName_success[of "''http_reqs''" "'' req''"
            "[('' status'', ''200 ''),
              ([CHR 0x09] @ ''method '', '' GET x'' @ [CHR 0x20, CHR 0xC2, CHR 0xA0])]"]
  from th have 1: "ParseMetricName ''http_reqs'' = (''http_reqs'', [], None)" by simp
  from th t have 2: "ParseMetricName
       ('' req{ status:200 ,'' @ [CHR 0x09] @ ''method : GET x''
          @ [CHR 0x20, CHR 0xC2, CHR 0xA0] @ ''}'')
       = ('' req'', [''status:200'', ''method : GET x''], None)"
    by simp
  from 1 2 show ?thesis by (rule conjI)
qed

text \<open>
  C8. \<open>ParseMetricName\<close> fails when exactly one of \<open>{\<close> and \<open>}\<close> occurs, when the last
  \<open>}\<close> stands before the first \<open>{\<close>, and when a \<open>}\<close> occurs but the last character is
  not \<open>}\<close>. A failure returns the empty name and no clauses, and the chain of every
  error it returns contains \<open>ErrMetricNameParsing\<close>.
\<close>

theorem ParseMetricName_failures:
  "((CHR ''{'' \<in> set name) \<noteq> (CHR ''}'' \<in> set name) \<longrightarrow>
      ParseMetricName name =
        ('''', [], Some (wrapError ''%w, metric %q has unmatched opening/close curly brace''
                           ErrMetricNameParsing [name])))
   \<and> (CHR ''{'' \<notin> set a \<and> CHR ''{'' \<notin> set b \<and> CHR ''}'' \<notin> set b \<and> CHR ''}'' \<notin> set c \<longrightarrow>
      ParseMetricName (a @ ''}'' @ b @ ''{'' @ c) =
        ('''', [], Some (wrapError ''%w, metric %q closing curly brace appears before opening one''
                           ErrMetricNameParsing [a @ ''}'' @ b @ ''{'' @ c])))
   \<and> (CHR ''}'' \<in> set name \<and> last name \<noteq> CHR ''}'' \<longrightarrow>
      (\<exists>e. ParseMetricName name = ('''', [], Some e)))
   \<and> (\<forall>e. snd (snd (ParseMetricName name)) = Some e \<longrightarrow>
      errors_Is e ErrMetricNameParsing \<and> fst (ParseMetricName name) = ''''
      \<and> fst (snd (ParseMetricName name)) = [])"
proof -
  have p1: "(CHR ''{'' \<in> set name) \<noteq> (CHR ''}'' \<in> set name) \<longrightarrow>
      ParseMetricName name =
        ('''', [], Some (wrapError ''%w, metric %q has unmatched opening/close curly brace''
                           ErrMetricNameParsing [name]))"
  proof
    assume "(CHR ''{'' \<in> set name) \<noteq> (CHR ''}'' \<in> set name)"
    then have "(IndexByte name CHR ''{'' = -1) \<noteq> (LastIndexByte name CHR ''}'' = -1)"
      by (simp add: IndexByte_notin LastIndexByte_notin)
    then show "ParseMetricName name =
        ('''', [], Some (wrapError ''%w, metric %q has unmatched opening/close curly brace''
                           ErrMetricNameParsing [name]))"
      by (auto simp: ParseMetricName_def)
  qed
  have p2: "CHR ''{'' \<notin> set a \<and> CHR ''{'' \<notin> set b \<and> CHR ''}'' \<notin> set b \<and> CHR ''}'' \<notin> set c \<longrightarrow>
      ParseMetricName (a @ ''}'' @ b @ ''{'' @ c) =
        ('''', [], Some (wrapError ''%w, metric %q closing curly brace appears before opening one''
                           ErrMetricNameParsing [a @ ''}'' @ b @ ''{'' @ c]))"
  proof
    let ?n = "a @ ''}'' @ b @ ''{'' @ c"
    assume h: "CHR ''{'' \<notin> set a \<and> CHR ''{'' \<notin> set b \<and> CHR ''}'' \<notin> set b \<and> CHR ''}'' \<notin> set c"
    then have "IndexByte ((a @ ''}'' @ b) @ CHR ''{'' # c) CHR ''{'' = int (length (a @ ''}'' @ b))"
      by (intro IndexByte_append) simp
    then have op: "IndexByte ?n CHR ''{'' = int (length a) + 1 + int (length b)" by simp
    from h have "LastIndexByte (a @ CHR ''}'' # (b @ ''{'' @ c)) CHR ''}'' = int (length a)"
      by (intro LastIndexByte_append) simp
    then have cl: "LastIndexByte ?n CHR ''}'' = int (length a)" by simp
    show "ParseMetricName ?n =
        ('''', [], Some (wrapError ''%w, metric %q closing curly brace appears before opening one''
                           ErrMetricNameParsing [?n]))"
      unfolding ParseMetricName_def op cl Let_def by simp
  qed
  have p3: "CHR ''}'' \<in> set name \<and> last name \<noteq> CHR ''}'' \<longrightarrow>
      (\<exists>e. ParseMetricName name = ('''', [], Some e))"
  proof
    assume h: "CHR ''}'' \<in> set name \<and> last name \<noteq> CHR ''}''"
    then have ne: "LastIndexByte name CHR ''}'' \<noteq> -1" by (simp add: LastIndexByte_notin)
    with h have "LastIndexByte name CHR ''}'' \<noteq> int (length name) - 1"
      using LastIndexByte_last[of name "CHR ''}''"] by auto
    with ne show "\<exists>e. ParseMetricName name = ('''', [], Some e)"
      by (auto simp: ParseMetricName_def Let_def)
  qed
  have p4: "\<forall>e. snd (snd (ParseMetricName name)) = Some e \<longrightarrow>
      errors_Is e ErrMetricNameParsing \<and> fst (ParseMetricName name) = ''''
      \<and> fst (snd (ParseMetricName name)) = []"
  proof (intro allI impI)
    fix e
    assume "snd (snd (ParseMetricName name)) = Some e"
    then show "errors_Is e ErrMetricNameParsing \<and> fst (ParseMetricName name) = ''''
      \<and> fst (snd (ParseMetricName name)) = []"
      unfolding ParseMetricName_def Let_def
      by (auto simp: ErrMetricNameParsing_def checkTags_error[unfolded ErrMetricNameParsing_def]
            split: if_splits sum.splits)
  qed
  from p1 p2 p3 p4 show ?thesis by (intro conjI)
qed

theorem ParseMetricName_failures_witness:
  "ParseMetricName ''req{status:200'' =
     ('''', [], Some (wrapError ''%w, metric %q has unmatched opening/close curly brace''
                        ErrMetricNameParsing [''req{status:200'']))
   \<and> ParseMetricName ''req}x{'' =
       ('''', [], Some (wrapError ''%w, metric %q closing curly brace appears before opening one''
                          ErrMetricNameParsing [''req}x{'']))
   \<and> (\<exists>e. ParseMetricName ''req{a:b}x'' = ('''', [], Some e))
   \<and> errors_Is (wrapError ''%w, metric %q has unmatched opening/close curly brace''
                  ErrMetricNameParsing [''req{status:200'']) ErrMetricNameParsing"
proof -
  note f1 = ParseMetricName_failures[of "''req{status:200''" "''''" "''''" "''''"]
  note f2 = ParseMetricName_failures[of "''x''" "''req''" "''x''" "''''"]
  note f3 = ParseMetricName_failures[of "''req{a:b}x''" "''''" "''''" "''''"]
  from f1 have p1: "ParseMetricName ''req{status:200'' =
     ('''', [], Some (wrapError ''%w, metric %q has unmatched opening/close curly brace''
                        ErrMetricNameParsing [''req{status:200'']))" by simp
  from f2 have p2: "ParseMetricName ''req}x{'' =
       ('''', [], Some (wrapError ''%w, metric %q closing curly brace appears before opening one''
                          ErrMetricNameParsing [''req}x{'']))" by simp
  from f3 have p3: "\<exists>e. ParseMetricName ''req{a:b}x'' = ('''', [], Some e)" by simp
  from f1 p1 have p4: "errors_Is (wrapError ''%w, metric %q has unmatched opening/close curly brace''
                  ErrMetricNameParsing [''req{status:200'']) ErrMetricNameParsing" by simp
  from p1 p2 p3 p4 show ?thesis by blast
qed

text \<open>
  C2, as the code has it. With the braces matched and in place, \<open>ParseMetricName\<close>
  fails at the first clause that has no \<open>:\<close> or has nothing after its first \<open>:\<close>, and
  the error's operand is that clause as it stands in the input. The text before the
  \<open>:\<close> is not examined, and the text after it is examined before any trimming.
\<close>

theorem ParseMetricName_malformed_clause:
  assumes "CHR ''{'' \<notin> set base"
    and "\<forall>u\<in>set (pre @ t # post). CHR '','' \<notin> set u"
    and "\<forall>u\<in>set pre. \<exists>k v. u = k @ '':'' @ v \<and> v \<noteq> []"
    and "CHR '':'' \<notin> set t \<or> (\<exists>k. CHR '':'' \<notin> set k \<and> t = k @ '':'')"
  shows "ParseMetricName (base @ ''{'' @ Join (pre @ t # post) '','' @ ''}'') =
           ('''', [], Some (wrapError ''%w, metric %q tag expression is malformed''
                              ErrMetricNameParsing [t]))"
proof -
  let ?cs = "pre @ t # post"
  from assms(2) have sp: "Split (Join ?cs '','') CHR '','' = ?cs"
    using Split_Join[of ?cs "CHR '',''"] by simp
  from assms(3) have "\<forall>u\<in>set pre. \<exists>k v. u = k @ CHR '':'' # v \<and> v \<noteq> []" by simp
  from checkTags_bad[OF this assms(4), of post]
  have ck: "checkTags ?cs =
           Inl (wrapError ''%w, metric %q tag expression is malformed'' ErrMetricNameParsing [t])" .
  have "ParseMetricName (base @ ''{'' @ Join ?cs '','' @ ''}'') =
           (case checkTags (Split (Join ?cs '','') CHR '','') of
              Inl e \<Rightarrow> ('''', [], Some e)
            | Inr tags \<Rightarrow> (base, tags, None))"
    using assms(1) by (rule ParseMetricName_braces)
  then show ?thesis by (simp only: sp ck sum.case)
qed

theorem ParseMetricName_malformed_clause_witness:
  "ParseMetricName ''req{a:1,b:,c}'' =
     ('''', [], Some (wrapError ''%w, metric %q tag expression is malformed''
                        ErrMetricNameParsing [''b:'']))
   \<and> ParseMetricName ''req{a}'' =
     ('''', [], Some (wrapError ''%w, metric %q tag expression is malformed''
                        ErrMetricNameParsing [''a'']))"
proof -
  have "ParseMetricName (''req'' @ ''{'' @ Join ([''a:1''] @ ''b:'' # [''c'']) '','' @ ''}'') =
     ('''', [], Some (wrapError ''%w, metric %q tag expression is malformed''
                        ErrMetricNameParsing [''b:'']))"
  proof (rule ParseMetricName_malformed_clause)
    show "CHR ''{'' \<notin> set ''req''" by simp
    show "\<forall>u\<in>set ([''a:1''] @ ''b:'' # [''c'']). CHR '','' \<notin> set u" by simp
    have "\<exists>k v. ''a:1'' = k @ '':'' @ v \<and> v \<noteq> []"
      by (rule exI[of _ "''a''"], rule exI[of _ "''1''"]) simp
    then show "\<forall>u\<in>set [''a:1'']. \<exists>k v. u = k @ '':'' @ v \<and> v \<noteq> []" by simp
    have "CHR '':'' \<notin> set ''b'' \<and> ''b:'' = ''b'' @ '':''" by simp
    then show "CHR '':'' \<notin> set ''b:'' \<or> (\<exists>k. CHR '':'' \<notin> set k \<and> ''b:'' = k @ '':'')"
      by blast
  qed
  moreover
  have "ParseMetricName (''req'' @ ''{'' @ Join ([] @ ''a'' # []) '','' @ ''}'') =
     ('''', [], Some (wrapError ''%w, metric %q tag expression is malformed''
                        ErrMetricNameParsing [''a'']))"
    by (rule ParseMetricName_malformed_clause) simp_all
  ultimately show ?thesis by simp
qed

text \<open>
  C2 as stated fails: a clause with an empty key, and a clause whose value is only
  white space, are accepted.
\<close>

theorem ParseMetricName_empty_key_blank_value_counterexample:
  "ParseMetricName ''m{:v}'' = (''m'', ['':v''], None)
   \<and> ParseMetricName ''m{a: }'' = (''m'', [''a:''], None)"
  by code_simp

section \<open>AddSubmetric: facts\<close>

lemma newMetric_unknown: "newMetric name (UnknownMetricType k) vt h = (None, h)"
  by (simp add: newMetric_def)

lemma newMetric_known:
  assumes "\<forall>k. mt \<noteq> UnknownMetricType k"
  shows "\<exists>sink. newMetric name mt [vt] h =
           (Some (length (metrics h)),
            h\<lparr>metrics := metrics h @
               [\<lparr>Metric.Name = name, Type = mt, Contains = vt, Tainted = None,
                 Thresholds = default, Submetrics = [], Sub = None, Sink = Some sink,
                 Observed = False\<rparr>]\<rparr>)"
  using assms by (cases mt) (auto simp: newMetric_def new_Metric_def)

lemma AddSubmetric_nil:
  "metric_at h m = None \<Longrightarrow> AddSubmetric m kv h = (Inl NilDereference, h)"
  by (simp add: AddSubmetric_def)

lemma AddSubmetric_empty:
  "metric_at h m = Some parent \<Longrightarrow> TrimSpace kv = [] \<Longrightarrow>
     AddSubmetric m kv h =
       (Inr (None, Some (fmtError ''submetric criteria for metric '%s' cannot be empty''
                           [Metric.Name parent])), h)"
  by (simp add: AddSubmetric_def)

lemma AddSubmetric_loop_panic:
  "metric_at h m = Some parent \<Longrightarrow> TrimSpace kv \<noteq> [] \<Longrightarrow>
   findEqual h (IntoSampleTags (rawTagsOf (Split (TrimSpace kv) CHR '',''))) (Submetrics parent)
     = Inl p \<Longrightarrow>
   AddSubmetric m kv h = (Inl p, h)"
  by (simp add: AddSubmetric_def)

lemma AddSubmetric_found:
  "metric_at h m = Some parent \<Longrightarrow> TrimSpace kv \<noteq> [] \<Longrightarrow>
   findEqual h (IntoSampleTags (rawTagsOf (Split (TrimSpace kv) CHR '',''))) (Submetrics parent)
     = Inr (Some sm) \<Longrightarrow>
   AddSubmetric m kv h =
     (Inr (None, Some (fmtError ''sub-metric with params '%s' already exists for metric %s: %s''
                         [TrimSpace kv, Metric.Name parent, Submetric.Name sm])), h)"
  by (simp add: AddSubmetric_def)

lemma AddSubmetric_unknown_kind:
  "metric_at h m = Some parent \<Longrightarrow> TrimSpace kv \<noteq> [] \<Longrightarrow>
   findEqual h (IntoSampleTags (rawTagsOf (Split (TrimSpace kv) CHR '',''))) (Submetrics parent)
     = Inr None \<Longrightarrow>
   Type parent = UnknownMetricType k \<Longrightarrow>
   AddSubmetric m kv h =
     (Inl NilDereference,
      h\<lparr>submetrics := submetrics h @
         [\<lparr>Submetric.Name = Metric.Name parent @ ''{'' @ TrimSpace kv @ ''}'',
           Suffix = TrimSpace kv,
           Tags = IntoSampleTags (rawTagsOf (Split (TrimSpace kv) CHR '','')),
           Metric = None, Parent = m\<rparr>]\<rparr>)"
  by (simp add: AddSubmetric_def new_Submetric_def newMetric_unknown Let_def)

lemma AddSubmetric_new:
  assumes "metric_at h m = Some parent" "TrimSpace kv \<noteq> []"
    and "findEqual h (IntoSampleTags (rawTagsOf (Split (TrimSpace kv) CHR '','')))
           (Submetrics parent) = Inr None"
    and "\<forall>k. Type parent \<noteq> UnknownMetricType k"
  shows "\<exists>sink. AddSubmetric m kv h =
     (Inr (Some (length (submetrics h)), None),
      \<lparr>metrics =
         (metrics h)[the m := parent\<lparr>Submetrics :=
                                  Submetrics parent @ [Some (length (submetrics h))]\<rparr>] @
          [\<lparr>Metric.Name = Metric.Name parent @ ''{'' @ TrimSpace kv @ ''}'',
            Type = Type parent, Contains = Contains parent, Tainted = None,
            Thresholds = default, Submetrics = [], Sub = Some (length (submetrics h)),
            Sink = Some sink, Observed = False\<rparr>],
       submetrics = submetrics h @
         [\<lparr>Submetric.Name = Metric.Name parent @ ''{'' @ TrimSpace kv @ ''}'',
           Suffix = TrimSpace kv,
           Tags = IntoSampleTags (rawTagsOf (Split (TrimSpace kv) CHR '','')),
           Metric = Some (length (metrics h)), Parent = m\<rparr>]\<rparr>)"
proof -
  from assms(1) obtain a where m: "m = Some a" "a < length (metrics h)" "metrics h ! a = parent"
    by (auto simp: metric_at_def split: option.splits if_splits)
  let ?sub = "\<lparr>Submetric.Name = Metric.Name parent @ ''{'' @ TrimSpace kv @ ''}'',
           Suffix = TrimSpace kv,
           Tags = IntoSampleTags (rawTagsOf (Split (TrimSpace kv) CHR '','')),
           Metric = None, Parent = m\<rparr>"
  from newMetric_known[OF assms(4), of "Submetric.Name ?sub" "Contains parent"
       "h\<lparr>submetrics := submetrics h @ [?sub]\<rparr>"]
  obtain sink where nm: "newMetric (Submetric.Name ?sub) (Type parent) [Contains parent]
       (h\<lparr>submetrics := submetrics h @ [?sub]\<rparr>) =
           (Some (length (metrics h)),
            h\<lparr>submetrics := submetrics h @ [?sub], metrics := metrics h @
               [\<lparr>Metric.Name = Submetric.Name ?sub, Type = Type parent,
                 Contains = Contains parent, Tainted = None,
                 Thresholds = default, Submetrics = [], Sub = None, Sink = Some sink,
                 Observed = False\<rparr>]\<rparr>)"
    by auto
  show ?thesis
    apply (rule exI[of _ sink])
    using assms(1,2,3) m nm
    by (simp add: AddSubmetric_def new_Submetric_def update_Metric_def update_Submetric_def
          Let_def nth_append list_update_append)
qed

lemma newMetric_known_sink:
  assumes "\<forall>k. mt \<noteq> UnknownMetricType k"
  shows "newMetric name mt [vt] h =
           (Some (length (metrics h)),
            h\<lparr>metrics := metrics h @
               [\<lparr>Metric.Name = name, Type = mt, Contains = vt, Tainted = None,
                 Thresholds = default, Submetrics = [], Sub = None,
                 Sink = (case mt of
                           Counter \<Rightarrow> Some CounterSink
                         | Gauge \<Rightarrow> Some GaugeSink
                         | Trend \<Rightarrow> Some TrendSink
                         | Rate \<Rightarrow> Some RateSink
                         | UnknownMetricType _ \<Rightarrow> None),
                 Observed = False\<rparr>]\<rparr>)"
  using assms by (cases mt) (auto simp: newMetric_def new_Metric_def)

text \<open>The store a successful call leaves, in full.\<close>

lemma AddSubmetric_new_store:
  assumes "metric_at h m = Some parent" "TrimSpace kv \<noteq> []"
    and "findEqual h (IntoSampleTags (rawTagsOf (Split (TrimSpace kv) CHR '','')))
           (Submetrics parent) = Inr None"
    and "\<forall>k. Type parent \<noteq> UnknownMetricType k"
  shows "AddSubmetric m kv h =
     (Inr (Some (length (submetrics h)), None),
      \<lparr>metrics =
         (metrics h)[the m := parent\<lparr>Submetrics :=
                                  Submetrics parent @ [Some (length (submetrics h))]\<rparr>] @
          [\<lparr>Metric.Name = Metric.Name parent @ ''{'' @ TrimSpace kv @ ''}'',
            Type = Type parent, Contains = Contains parent, Tainted = None,
            Thresholds = default, Submetrics = [], Sub = Some (length (submetrics h)),
            Sink = (case Type parent of
                      Counter \<Rightarrow> Some CounterSink
                    | Gauge \<Rightarrow> Some GaugeSink
                    | Trend \<Rightarrow> Some TrendSink
                    | Rate \<Rightarrow> Some RateSink
                    | UnknownMetricType _ \<Rightarrow> None),
            Observed = False\<rparr>],
       submetrics = submetrics h @
         [\<lparr>Submetric.Name = Metric.Name parent @ ''{'' @ TrimSpace kv @ ''}'',
           Suffix = TrimSpace kv,
           Tags = IntoSampleTags (rawTagsOf (Split (TrimSpace kv) CHR '','')),
           Metric = Some (length (metrics h)), Parent = m\<rparr>]\<rparr>)"
proof -
  from assms(1) obtain a where m: "m = Some a" "a < length (metrics h)" "metrics h ! a = parent"
    by (auto simp: metric_at_def split: option.splits if_splits)
  let ?sub = "\<lparr>Submetric.Name = Metric.Name parent @ ''{'' @ TrimSpace kv @ ''}'',
           Suffix = TrimSpace kv,
           Tags = IntoSampleTags (rawTagsOf (Split (TrimSpace kv) CHR '','')),
           Metric = None, Parent = m\<rparr>"
  note nm = newMetric_known_sink[OF assms(4), of "Submetric.Name ?sub" "Contains parent"
       "h\<lparr>submetrics := submetrics h @ [?sub]\<rparr>"]
  show ?thesis
    using assms(1,2,3) m nm
    by (simp add: AddSubmetric_def new_Submetric_def update_Metric_def update_Submetric_def
          Let_def nth_append list_update_append)
qed

text \<open>What a successful call tells about the store it started from.\<close>

lemma AddSubmetric_success:
  assumes "metric_at h m = Some parent"
    and "AddSubmetric m kv h = (Inr (Some sp, None), h')"
  shows "TrimSpace kv \<noteq> []
         \<and> findEqual h (IntoSampleTags (rawTagsOf (Split (TrimSpace kv) CHR '','')))
             (Submetrics parent) = Inr None
         \<and> (\<forall>k. Type parent \<noteq> UnknownMetricType k)"
proof (intro conjI)
  show ne: "TrimSpace kv \<noteq> []"
    using assms AddSubmetric_empty[OF assms(1), of kv] by auto
  show fe: "findEqual h (IntoSampleTags (rawTagsOf (Split (TrimSpace kv) CHR '','')))
             (Submetrics parent) = Inr None"
  proof (cases "findEqual h (IntoSampleTags (rawTagsOf (Split (TrimSpace kv) CHR '','')))
             (Submetrics parent)")
    case (Inl p)
    from AddSubmetric_loop_panic[OF assms(1) ne Inl] assms(2) show ?thesis by simp
  next
    case (Inr r)
    show ?thesis
    proof (cases r)
      case None
      with Inr show ?thesis by simp
    next
      case (Some sm)
      with Inr AddSubmetric_found[OF assms(1) ne, of sm] assms(2) show ?thesis by simp
    qed
  qed
  show "\<forall>k. Type parent \<noteq> UnknownMetricType k"
  proof (intro allI notI)
    fix k
    assume "Type parent = UnknownMetricType k"
    from AddSubmetric_unknown_kind[OF assms(1) ne fe this] assms(2) show False by simp
  qed
qed

lemma findEqual_None:
  "(findEqual h tags ps = Inr None) =
     (\<forall>p\<in>set ps. \<exists>s. submetric_at h p = Some s \<and> \<not> IsEqual (Tags s) tags)"
  by (induction ps) (auto split: option.splits)

lemma findEqual_Some:
  assumes "list_all (\<lambda>p. submetric_at h p \<noteq> None) ps"
    and "\<exists>p\<in>set ps. \<exists>s. submetric_at h p = Some s \<and> IsEqual (Tags s) tags"
  shows "\<exists>sm. findEqual h tags ps = Inr (Some sm) \<and> IsEqual (Tags sm) tags
              \<and> (\<exists>p\<in>set ps. submetric_at h p = Some sm)"
  using assms by (induction ps) (auto split: option.splits)

lemma noEqualTags_snoc:
  "noEqualTags (ts @ [t]) = (noEqualTags ts \<and> (\<forall>u\<in>set ts. \<not> IsEqual u t))"
  by (induction ts) auto

lemma addRawTag_pair:
  "SplitN kv CHR '':'' 2 = [k, v] \<Longrightarrow> kv \<noteq> [] \<Longrightarrow>
     addRawTag m kv = m(Trim (TrimSpace k) quotes \<mapsto> Trim (TrimSpace v) quotes)"
  by (simp add: addRawTag_def)

lemma addRawTag_single:
  "SplitN kv CHR '':'' 2 = [k] \<Longrightarrow> kv \<noteq> [] \<Longrightarrow>
     addRawTag m kv = m(Trim (TrimSpace k) quotes \<mapsto> [])"
  by (simp add: addRawTag_def)

lemma exampleStore:
  "exampleStore =
     \<lparr>metrics = [\<lparr>Metric.Name = ''http_reqs'', Type = Counter, Contains = Default,
                  Tainted = None, Thresholds = (), Submetrics = [], Sub = None,
                  Sink = Some CounterSink, Observed = False\<rparr>],
      submetrics = []\<rparr>"
  by (simp add: exampleStore_def newMetric_def new_Metric_def)

lemmas store_eval =
  AddSubmetric_def metric_at_def submetric_at_def new_Submetric_def new_Metric_def
  newMetric_def update_Metric_def update_Submetric_def IntoSampleTags_def IsEqual_def Let_def

lemma submetric_at_grow:
  "submetric_at h p = Some s \<Longrightarrow>
     submetric_at \<lparr>metrics = ms, submetrics = submetrics h @ xs\<rparr> p = Some s"
  by (auto simp: submetric_at_def nth_append split: option.splits if_splits)

lemma submetric_at_new:
  "submetric_at \<lparr>metrics = ms, submetrics = submetrics h @ [x]\<rparr> (Some (length (submetrics h)))
     = Some x"
  by (simp add: submetric_at_def)

lemma store_submetrics_update:
  "h\<lparr>submetrics := ss\<rparr> = \<lparr>metrics = metrics h, submetrics = ss\<rparr>"
  by (cases h) simp

text \<open>The stores a call can leave, for a receiver that is not \<open>nil\<close>.\<close>

lemma AddSubmetric_store_cases:
  assumes "metric_at h m = Some parent"
  shows "snd (AddSubmetric m kv h) = h
         \<or> (\<exists>x. snd (AddSubmetric m kv h) =
                  \<lparr>metrics = metrics h, submetrics = submetrics h @ [x]\<rparr>)
         \<or> (findEqual h (IntoSampleTags (rawTagsOf (Split (TrimSpace kv) CHR '','')))
               (Submetrics parent) = Inr None
            \<and> (\<exists>b. snd (AddSubmetric m kv h) =
                 \<lparr>metrics =
                    (metrics h)[the m := parent\<lparr>Submetrics :=
                        Submetrics parent @ [Some (length (submetrics h))]\<rparr>] @ [b],
                  submetrics = submetrics h @
                    [\<lparr>Submetric.Name = Metric.Name parent @ ''{'' @ TrimSpace kv @ ''}'',
                      Suffix = TrimSpace kv,
                      Tags = IntoSampleTags (rawTagsOf (Split (TrimSpace kv) CHR '','')),
                      Metric = Some (length (metrics h)), Parent = m\<rparr>]\<rparr>))"
proof -
  let ?tags = "IntoSampleTags (rawTagsOf (Split (TrimSpace kv) CHR '',''))"
  show ?thesis
  proof (cases "TrimSpace kv = []")
    case True
    from AddSubmetric_empty[OF assms True] show ?thesis by simp
  next
    case False
    show ?thesis
    proof (cases "findEqual h ?tags (Submetrics parent)")
      case (Inl p)
      from AddSubmetric_loop_panic[OF assms False Inl] show ?thesis by simp
    next
      case (Inr found)
      show ?thesis
      proof (cases found)
        case (Some sm)
        with Inr have "findEqual h ?tags (Submetrics parent) = Inr (Some sm)" by simp
        from AddSubmetric_found[OF assms False this] show ?thesis by simp
      next
        case None
        with Inr have fe: "findEqual h ?tags (Submetrics parent) = Inr None" by simp
        show ?thesis
        proof (cases "\<exists>k. Type parent = UnknownMetricType k")
          case True
          then obtain k where "Type parent = UnknownMetricType k" ..
          from AddSubmetric_unknown_kind[OF assms False fe this]
          have "\<exists>x. snd (AddSubmetric m kv h) =
                  \<lparr>metrics = metrics h, submetrics = submetrics h @ [x]\<rparr>"
            by (simp add: store_submetrics_update)
          then show ?thesis by blast
        next
          case False
          then have "\<forall>k. Type parent \<noteq> UnknownMetricType k" by simp
          from AddSubmetric_new[OF assms \<open>TrimSpace kv \<noteq> []\<close> fe this]
          obtain sink where "AddSubmetric m kv h =
            (Inr (Some (length (submetrics h)), None),
             \<lparr>metrics =
                (metrics h)[the m := parent\<lparr>Submetrics :=
                    Submetrics parent @ [Some (length (submetrics h))]\<rparr>] @
                 [\<lparr>Metric.Name = Metric.Name parent @ ''{'' @ TrimSpace kv @ ''}'',
                   Type = Type parent, Contains = Contains parent, Tainted = None,
                   Thresholds = default, Submetrics = [], Sub = Some (length (submetrics h)),
                   Sink = Some sink, Observed = False\<rparr>],
              submetrics = submetrics h @
                [\<lparr>Submetric.Name = Metric.Name parent @ ''{'' @ TrimSpace kv @ ''}'',
                  Suffix = TrimSpace kv, Tags = ?tags,
                  Metric = Some (length (metrics h)), Parent = m\<rparr>]\<rparr>)" ..
          then have "\<exists>b. snd (AddSubmetric m kv h) =
                 \<lparr>metrics =
                    (metrics h)[the m := parent\<lparr>Submetrics :=
                        Submetrics parent @ [Some (length (submetrics h))]\<rparr>] @ [b],
                  submetrics = submetrics h @
                    [\<lparr>Submetric.Name = Metric.Name parent @ ''{'' @ TrimSpace kv @ ''}'',
                      Suffix = TrimSpace kv, Tags = ?tags,
                      Metric = Some (length (metrics h)), Parent = m\<rparr>]\<rparr>"
            by simp
          with fe show ?thesis by blast
        qed
      qed
    qed
  qed
qed

lemma distinctSubmetrics_grow:
  assumes "distinctSubmetrics h m"
  shows "distinctSubmetrics \<lparr>metrics = metrics h, submetrics = submetrics h @ [x]\<rparr> m"
proof -
  let ?h' = "\<lparr>metrics = metrics h, submetrics = submetrics h @ [x]\<rparr>"
  from assms obtain parent where p: "metric_at h m = Some parent"
    and v: "list_all (\<lambda>p. submetric_at h p \<noteq> None) (Submetrics parent)"
    and d: "noEqualTags (map (\<lambda>p. Tags (the (submetric_at h p))) (Submetrics parent))"
    by (auto simp: distinctSubmetrics_def split: option.splits)
  have m: "metric_at ?h' m = Some parent"
    using p by (auto simp: metric_at_def split: option.splits)
  have same: "\<forall>q\<in>set (Submetrics parent). submetric_at ?h' q = submetric_at h q"
    using v submetric_at_grow[of h _ _ "metrics h" "[x]"] by (auto simp: list_all_iff)
  then have mp: "map (\<lambda>p. Tags (the (submetric_at ?h' p))) (Submetrics parent)
           = map (\<lambda>p. Tags (the (submetric_at h p))) (Submetrics parent)"
    by simp
  have "list_all (\<lambda>p. submetric_at ?h' p \<noteq> None) (Submetrics parent)"
    using v same by (simp add: list_all_iff)
  moreover have "noEqualTags (map (\<lambda>p. Tags (the (submetric_at ?h' p))) (Submetrics parent))"
    using d by (simp only: mp)
  ultimately show ?thesis using m by (simp add: distinctSubmetrics_def)
qed

lemma distinctSubmetrics_append:
  assumes "distinctSubmetrics h m" and p: "metric_at h m = Some parent"
    and fe: "findEqual h tags (Submetrics parent) = Inr None"
    and tg: "Tags x = tags"
  shows "distinctSubmetrics
           \<lparr>metrics =
              (metrics h)[the m := parent\<lparr>Submetrics :=
                  Submetrics parent @ [Some (length (submetrics h))]\<rparr>] @ [b],
            submetrics = submetrics h @ [x]\<rparr> m"
proof -
  let ?n = "length (submetrics h)"
  let ?ms = "(metrics h)[the m := parent\<lparr>Submetrics := Submetrics parent @ [Some ?n]\<rparr>] @ [b]"
  let ?h' = "\<lparr>metrics = ?ms, submetrics = submetrics h @ [x]\<rparr>"
  from p obtain a where a: "m = Some a" "a < length (metrics h)"
    by (auto simp: metric_at_def split: option.splits if_splits)
  from assms(1) p
  have v: "list_all (\<lambda>p. submetric_at h p \<noteq> None) (Submetrics parent)"
    and d: "noEqualTags (map (\<lambda>p. Tags (the (submetric_at h p))) (Submetrics parent))"
    by (auto simp: distinctSubmetrics_def)
  have m: "metric_at ?h' m = Some (parent\<lparr>Submetrics := Submetrics parent @ [Some ?n]\<rparr>)"
    using a by (simp add: metric_at_def nth_append)
  have same: "\<forall>q\<in>set (Submetrics parent). submetric_at ?h' q = submetric_at h q"
    using v submetric_at_grow[of h _ _ ?ms "[x]"] by (auto simp: list_all_iff)
  have new: "submetric_at ?h' (Some ?n) = Some x" by (rule submetric_at_new)
  have mp: "map (\<lambda>p. Tags (the (submetric_at ?h' p))) (Submetrics parent)
           = map (\<lambda>p. Tags (the (submetric_at h p))) (Submetrics parent)"
    using same by simp
  from fe have ne: "\<forall>q\<in>set (Submetrics parent). \<not> IsEqual (Tags (the (submetric_at h q))) tags"
    by (auto simp: findEqual_None)
  have "list_all (\<lambda>p. submetric_at ?h' p \<noteq> None) (Submetrics parent @ [Some ?n])"
    using v same new by (simp add: list_all_iff)
  moreover have "noEqualTags (map (\<lambda>p. Tags (the (submetric_at ?h' p)))
                    (Submetrics parent @ [Some ?n]))"
    using d ne tg by (simp add: mp new noEqualTags_snoc)
  ultimately show ?thesis using m by (simp add: distinctSubmetrics_def)
qed

section \<open>Facts about trimming\<close>

lemma Trim_decompose:
  "\<exists>pre post. s = pre @ Trim s cs @ post
      \<and> set pre \<subseteq> set cs \<and> set post \<subseteq> set cs
      \<and> (Trim s cs \<noteq> [] \<longrightarrow> hd (Trim s cs) \<notin> set cs \<and> last (Trim s cs) \<notin> set cs)"
proof -
  let ?P = "\<lambda>x. x \<in> set cs"
  let ?r = "rev (dropWhile ?P (rev s))"
  have t: "Trim s cs = dropWhile ?P ?r" by (simp add: Trim_def)
  have "rev (takeWhile ?P (rev s) @ dropWhile ?P (rev s)) = rev (rev s)"
    by (simp only: takeWhile_dropWhile_id)
  then have "?r @ rev (takeWhile ?P (rev s)) = s"
    by (simp only: rev_append rev_rev_ident)
  then have s: "s = ?r @ rev (takeWhile ?P (rev s))" by (rule sym)
  have r: "?r = takeWhile ?P ?r @ Trim s cs" by (simp add: t)
  have d: "s = takeWhile ?P ?r @ Trim s cs @ rev (takeWhile ?P (rev s))"
    using s r by (metis append.assoc)
  have p1: "set (takeWhile ?P ?r) \<subseteq> set cs"
    by (auto dest: set_takeWhileD)
  have p2: "set (rev (takeWhile ?P (rev s))) \<subseteq> set cs"
    by (auto dest: set_takeWhileD)
  have e: "Trim s cs \<noteq> [] \<longrightarrow> hd (Trim s cs) \<notin> set cs \<and> last (Trim s cs) \<notin> set cs"
  proof
    assume ne: "Trim s cs \<noteq> []"
    then have h1: "hd (Trim s cs) \<notin> set cs"
      unfolding t by (rule hd_dropWhile)
    from ne r have rne: "?r \<noteq> []" by (metis append_is_Nil_conv)
    from ne r have l1: "last (Trim s cs) = last ?r" by (metis last_appendR)
    have l2: "last ?r = hd (dropWhile ?P (rev s))" by (simp add: last_rev)
    from rne have "dropWhile ?P (rev s) \<noteq> []" by simp
    then have "hd (dropWhile ?P (rev s)) \<notin> set cs" by (rule hd_dropWhile)
    with l1 l2 have "last (Trim s cs) \<notin> set cs" by simp
    with h1 show "hd (Trim s cs) \<notin> set cs \<and> last (Trim s cs) \<notin> set cs" by simp
  qed
  from d p1 p2 e show ?thesis by blast
qed

lemma Split_only_sep: "set s \<subseteq> {c} \<Longrightarrow> set (Split s c) \<subseteq> {[]}"
proof (induction s)
  case Nil
  then show ?case by (simp add: Split_def)
next
  case (Cons x xs)
  then have x: "x = c" and xs: "set xs \<subseteq> {c}" by auto
  have "Split ([] @ c # xs) c = [] # Split xs c"
    by (rule Split_append_sep) simp
  with x Cons.IH[OF xs] show ?case by simp
qed

lemma rawTagsOf_empty_segments:
  "set kvs \<subseteq> {[]} \<Longrightarrow> foldl addRawTag m kvs = m"
  by (induction kvs arbitrary: m) (auto simp: addRawTag_def)

lemma TrimSpace_only_commas:
  assumes "set s \<subseteq> {CHR '',''}"
  shows "TrimSpace s = s"
proof (cases s rule: rev_cases)
  case Nil
  have "leading_space [] = 0" "trailing_space [] = 0"
    by (simp_all add: leading_space_def trailing_space_def space_encodings_def)
  with Nil show ?thesis
    by (simp add: TrimSpace_def TrimLeftSpace.simps TrimRightSpace.simps)
next
  case (snoc ys y)
  with assms have y: "y = CHR '',''" by simp
  from snoc have "s \<noteq> []" by simp
  then obtain z zs where "s = z # zs" by (cases s) auto
  with assms have zs: "s = CHR '','' # zs" by simp
  have "leading_space (CHR '','' # zs) = 0"
    by (simp add: leading_space_def space_encodings_def)
  with zs have l: "TrimLeftSpace s = s" by (simp add: TrimLeftSpace.simps)
  have "trailing_space (ys @ [CHR '','']) = 0"
    by (simp add: trailing_space_def space_encodings_def)
  with snoc y have r: "TrimRightSpace s = s" by (simp add: TrimRightSpace.simps)
  from l r show ?thesis by (simp add: TrimSpace_def)
qed

lemma newMetric_distinctSubmetrics:
  "newMetric name mt vt h = (Some a, h') \<Longrightarrow> distinctSubmetrics h' (Some a)"
  by (cases mt)
     (auto simp: newMetric_def new_Metric_def distinctSubmetrics_def metric_at_def Let_def)

section \<open>The example stores, evaluated\<close>

lemma rawTags_status_method:
  "rawTagsOf (Split ''status:200,method:GET'' CHR '','')
     = [''status'' \<mapsto> ''200'', ''method'' \<mapsto> ''GET'']"
proof -
  have s: "Split ''status:200,method:GET'' CHR '','' = [''status:200'', ''method:GET'']"
    by code_simp
  have p: "SplitN ''status:200'' CHR '':'' 2 = [''status'', ''200'']"
    "SplitN ''method:GET'' CHR '':'' 2 = [''method'', ''GET'']" by code_simp+
  have t: "Trim (TrimSpace ''status'') quotes = ''status''"
    "Trim (TrimSpace ''200'') quotes = ''200''"
    "Trim (TrimSpace ''method'') quotes = ''method''"
    "Trim (TrimSpace ''GET'') quotes = ''GET''" by code_simp+
  show ?thesis
    by (simp add: rawTagsOf_def s addRawTag_pair[OF p(1)] addRawTag_pair[OF p(2)] t)
qed

lemma rawTags_method_status:
  "rawTagsOf (Split ''method:GET,status:200'' CHR '','')
     = [''status'' \<mapsto> ''200'', ''method'' \<mapsto> ''GET'']"
proof -
  have s: "Split ''method:GET,status:200'' CHR '','' = [''method:GET'', ''status:200'']"
    by code_simp
  have p: "SplitN ''status:200'' CHR '':'' 2 = [''status'', ''200'']"
    "SplitN ''method:GET'' CHR '':'' 2 = [''method'', ''GET'']" by code_simp+
  have t: "Trim (TrimSpace ''status'') quotes = ''status''"
    "Trim (TrimSpace ''200'') quotes = ''200''"
    "Trim (TrimSpace ''method'') quotes = ''method''"
    "Trim (TrimSpace ''GET'') quotes = ''GET''" by code_simp+
  have "rawTagsOf (Split ''method:GET,status:200'' CHR '','')
     = [''method'' \<mapsto> ''GET'', ''status'' \<mapsto> ''200'']"
    by (simp add: rawTagsOf_def s addRawTag_pair[OF p(1)] addRawTag_pair[OF p(2)] t)
  also have "\<dots> = [''status'' \<mapsto> ''200'', ''method'' \<mapsto> ''GET'']"
    by (rule fun_upd_twist) simp
  finally show ?thesis .
qed

lemma example_first_add:
  "AddSubmetric (Some 0) ''status:200,method:GET'' exampleStore =
    (Inr (Some 0, None),
     \<lparr>metrics = [\<lparr>Metric.Name = ''http_reqs'', Type = Counter, Contains = Default,
                  Tainted = None, Thresholds = (), Submetrics = [Some 0], Sub = None,
                  Sink = Some CounterSink, Observed = False\<rparr>,
                 \<lparr>Metric.Name = ''http_reqs{status:200,method:GET}'', Type = Counter,
                  Contains = Default, Tainted = None, Thresholds = (), Submetrics = [],
                  Sub = Some 0, Sink = Some CounterSink, Observed = False\<rparr>],
      submetrics = [\<lparr>Submetric.Name = ''http_reqs{status:200,method:GET}'',
                     Suffix = ''status:200,method:GET'',
                     Tags = [''status'' \<mapsto> ''200'', ''method'' \<mapsto> ''GET''],
                     Metric = Some 1, Parent = Some 0\<rparr>]\<rparr>)"
proof -
  have t: "TrimSpace ''status:200,method:GET'' = ''status:200,method:GET''" by code_simp
  show ?thesis
    by (simp add: store_eval exampleStore t rawTags_status_method)
qed

lemma exampleStore1:
  "exampleStore1 =
     \<lparr>metrics = [\<lparr>Metric.Name = ''http_reqs'', Type = Counter, Contains = Default,
                  Tainted = None, Thresholds = (), Submetrics = [Some 0], Sub = None,
                  Sink = Some CounterSink, Observed = False\<rparr>,
                 \<lparr>Metric.Name = ''http_reqs{status:200,method:GET}'', Type = Counter,
                  Contains = Default, Tainted = None, Thresholds = (), Submetrics = [],
                  Sub = Some 0, Sink = Some CounterSink, Observed = False\<rparr>],
      submetrics = [\<lparr>Submetric.Name = ''http_reqs{status:200,method:GET}'',
                     Suffix = ''status:200,method:GET'',
                     Tags = [''status'' \<mapsto> ''200'', ''method'' \<mapsto> ''GET''],
                     Metric = Some 1, Parent = Some 0\<rparr>]\<rparr>"
  by (simp add: exampleStore1_def example_first_add)

lemma example_second_add:
  "AddSubmetric (Some 0) ''method:GET,status:200'' exampleStore1 =
   (Inr (None, Some (fmtError ''sub-metric with params '%s' already exists for metric %s: %s''
      [''method:GET,status:200'', ''http_reqs'', ''http_reqs{status:200,method:GET}''])),
    exampleStore1)"
proof -
  have t: "TrimSpace ''method:GET,status:200'' = ''method:GET,status:200''" by code_simp
  show ?thesis
    by (simp add: exampleStore1) (simp add: store_eval t rawTags_method_status)
qed

lemma example_blank_add:
  "AddSubmetric (Some 0) '' '' exampleStore =
     (Inr (None, Some (fmtError ''submetric criteria for metric '%s' cannot be empty''
                         [''http_reqs''])), exampleStore)"
proof -
  have t: "TrimSpace '' '' = ''''" by code_simp
  show ?thesis by (simp add: exampleStore) (simp add: store_eval t)
qed

lemma example_padded_add:
  "AddSubmetric (Some 0) '' a:1 '' exampleStore =
    (Inr (Some 0, None),
     \<lparr>metrics = [\<lparr>Metric.Name = ''http_reqs'', Type = Counter, Contains = Default,
                  Tainted = None, Thresholds = (), Submetrics = [Some 0], Sub = None,
                  Sink = Some CounterSink, Observed = False\<rparr>,
                 \<lparr>Metric.Name = ''http_reqs{a:1}'', Type = Counter,
                  Contains = Default, Tainted = None, Thresholds = (), Submetrics = [],
                  Sub = Some 0, Sink = Some CounterSink, Observed = False\<rparr>],
      submetrics = [\<lparr>Submetric.Name = ''http_reqs{a:1}'', Suffix = ''a:1'',
                     Tags = [''a'' \<mapsto> ''1''], Metric = Some 1, Parent = Some 0\<rparr>]\<rparr>)"
proof -
  have t: "TrimSpace '' a:1 '' = ''a:1''" by code_simp
  have s: "Split ''a:1'' CHR '','' = [''a:1'']" by code_simp
  have p: "SplitN ''a:1'' CHR '':'' 2 = [''a'', ''1'']" by code_simp
  have q: "Trim (TrimSpace ''a'') quotes = ''a''" "Trim (TrimSpace ''1'') quotes = ''1''"
    by code_simp+
  have r: "rawTagsOf (Split ''a:1'' CHR '','') = [''a'' \<mapsto> ''1'']"
    by (simp add: rawTagsOf_def s addRawTag_pair[OF p] q)
  show ?thesis
    by (simp add: store_eval exampleStore t r)
qed

lemma rawTags_quotedClause:
  "TrimSpace quotedClause = quotedClause
   \<and> rawTagsOf (Split quotedClause CHR '','') = [''a'' \<mapsto> ''v'']"
proof -
  have t: "TrimSpace quotedClause = quotedClause" by code_simp
  have s: "Split quotedClause CHR '','' = [quotedClause]" by code_simp
  have p: "SplitN quotedClause CHR '':'' 2 =
             [[CHR 0x22, CHR ''a'', CHR 0x27], [CHR 0x27, CHR 0x27, CHR ''v'', CHR 0x27, CHR 0x27]]"
    by code_simp
  have q: "Trim (TrimSpace [CHR 0x22, CHR ''a'', CHR 0x27]) quotes = ''a''"
    "Trim (TrimSpace [CHR 0x27, CHR 0x27, CHR ''v'', CHR 0x27, CHR 0x27]) quotes = ''v''"
    by code_simp+
  have ne: "quotedClause \<noteq> []" by (simp add: quotedClause_def)
  have "rawTagsOf (Split quotedClause CHR '','') = [''a'' \<mapsto> ''v'']"
    by (simp add: rawTagsOf_def s addRawTag_pair[OF p ne] q)
  with t show ?thesis by simp
qed

lemma example_quoted_add:
  "AddSubmetric (Some 0) quotedClause exampleStore =
    (Inr (Some 0, None),
     \<lparr>metrics = [\<lparr>Metric.Name = ''http_reqs'', Type = Counter, Contains = Default,
                  Tainted = None, Thresholds = (), Submetrics = [Some 0], Sub = None,
                  Sink = Some CounterSink, Observed = False\<rparr>,
                 \<lparr>Metric.Name = ''http_reqs{'' @ quotedClause @ ''}'', Type = Counter,
                  Contains = Default, Tainted = None, Thresholds = (), Submetrics = [],
                  Sub = Some 0, Sink = Some CounterSink, Observed = False\<rparr>],
      submetrics = [\<lparr>Submetric.Name = ''http_reqs{'' @ quotedClause @ ''}'',
                     Suffix = quotedClause,
                     Tags = [''a'' \<mapsto> ''v''], Metric = Some 1, Parent = Some 0\<rparr>]\<rparr>)"
proof -
  have ne: "quotedClause \<noteq> []" by (simp add: quotedClause_def)
  show ?thesis
    using ne by (simp add: store_eval exampleStore rawTags_quotedClause)
qed

lemma rawTags_commas:
  "TrimSpace '','' = '',''" "TrimSpace '',,'' = '',,''"
  "rawTagsOf (Split '','' CHR '','') = Map.empty"
  "rawTagsOf (Split '',,'' CHR '','') = Map.empty"
proof -
  show "TrimSpace '','' = '',''" "TrimSpace '',,'' = '',,''" by code_simp+
  have s: "Split '','' CHR '','' = ['''', '''']" "Split '',,'' CHR '','' = ['''', '''', '''']"
    by code_simp+
  show "rawTagsOf (Split '','' CHR '','') = Map.empty"
    "rawTagsOf (Split '',,'' CHR '','') = Map.empty"
    by (simp_all add: s rawTagsOf_def addRawTag_def)
qed

lemma example_comma_add:
  "AddSubmetric (Some 0) '','' exampleStore =
    (Inr (Some 0, None),
     \<lparr>metrics = [\<lparr>Metric.Name = ''http_reqs'', Type = Counter, Contains = Default,
                  Tainted = None, Thresholds = (), Submetrics = [Some 0], Sub = None,
                  Sink = Some CounterSink, Observed = False\<rparr>,
                 \<lparr>Metric.Name = ''http_reqs{,}'', Type = Counter,
                  Contains = Default, Tainted = None, Thresholds = (), Submetrics = [],
                  Sub = Some 0, Sink = Some CounterSink, Observed = False\<rparr>],
      submetrics = [\<lparr>Submetric.Name = ''http_reqs{,}'', Suffix = '','',
                     Tags = Map.empty, Metric = Some 1, Parent = Some 0\<rparr>]\<rparr>)"
  by (simp add: store_eval exampleStore rawTags_commas)

lemma example_commas_second_add:
  "fst (AddSubmetric (Some 0) '',,'' (snd (AddSubmetric (Some 0) '','' exampleStore))) =
     Inr (None, Some (fmtError ''sub-metric with params '%s' already exists for metric %s: %s''
                        ['',,'', ''http_reqs'', ''http_reqs{,}'']))"
  by (simp add: example_comma_add) (simp add: store_eval rawTags_commas)

section \<open>AddSubmetric: the properties\<close>

text \<open>
  C9. When the clause is empty after trimming, \<open>AddSubmetric\<close> returns no submetric
  and the error "submetric criteria for metric '%s' cannot be empty" with the parent's
  name as its operand, and the store is as before: nothing is created.
\<close>

theorem AddSubmetric_empty_criteria:
  assumes "metric_at h m = Some parent" and "TrimSpace keyValues = ''''"
  shows "AddSubmetric m keyValues h =
           (Inr (None, Some (fmtError ''submetric criteria for metric '%s' cannot be empty''
                               [Metric.Name parent])), h)"
  using assms by (rule AddSubmetric_empty)

theorem AddSubmetric_empty_criteria_witness:
  "AddSubmetric (Some 0) '' '' exampleStore =
     (Inr (None, Some (fmtError ''submetric criteria for metric '%s' cannot be empty''
                         [''http_reqs''])), exampleStore)
   \<and> AddSubmetric (Some 0) '''' exampleStore =
     (Inr (None, Some (fmtError ''submetric criteria for metric '%s' cannot be empty''
                         [''http_reqs''])), exampleStore)"
proof -
  have m: "metric_at exampleStore (Some 0) = Some (metrics exampleStore ! 0)"
    by (simp add: metric_at_def exampleStore)
  have n: "Metric.Name (metrics exampleStore ! 0) = ''http_reqs''"
    by (simp add: exampleStore)
  have t: "TrimSpace '' '' = ''''" "TrimSpace '''' = ''''" by code_simp+
  from AddSubmetric_empty_criteria[OF m t(1)] AddSubmetric_empty_criteria[OF m t(2)] n
  show ?thesis by simp
qed

text \<open>
  C3. Whenever \<open>AddSubmetric\<close> returns an error, it returns no submetric and the store
  is exactly as before the call: the parent's \<open>Submetrics\<close> is unchanged and no
  submetric and no metric has been created. The error is the one for empty criteria or
  the one for a duplicate.
\<close>

theorem AddSubmetric_error_atomic:
  assumes "AddSubmetric m keyValues h = (Inr (r, Some e), h')"
  shows "h' = h \<and> r = None
         \<and> (\<exists>parent. metric_at h m = Some parent
              \<and> (e = fmtError ''submetric criteria for metric '%s' cannot be empty''
                       [Metric.Name parent]
                 \<or> (\<exists>sm::Submetric. e = fmtError
                       ''sub-metric with params '%s' already exists for metric %s: %s''
                       [TrimSpace keyValues, Metric.Name parent, Submetric.Name sm])))"
proof (cases "metric_at h m")
  case None
  from AddSubmetric_nil[OF None, of keyValues] assms show ?thesis by simp
next
  case (Some parent)
  let ?tags = "IntoSampleTags (rawTagsOf (Split (TrimSpace keyValues) CHR '',''))"
  show ?thesis
  proof (cases "TrimSpace keyValues = []")
    case True
    from AddSubmetric_empty[OF Some True] assms Some show ?thesis by simp
  next
    case False
    show ?thesis
    proof (cases "findEqual h ?tags (Submetrics parent)")
      case (Inl p)
      from AddSubmetric_loop_panic[OF Some False Inl] assms show ?thesis by simp
    next
      case (Inr found)
      show ?thesis
      proof (cases found)
        case (Some sm)
        with Inr have "findEqual h ?tags (Submetrics parent) = Inr (Some sm)" by simp
        from AddSubmetric_found[OF \<open>metric_at h m = Some parent\<close> False this] assms
        have "h' = h" "r = None"
          "e = fmtError ''sub-metric with params '%s' already exists for metric %s: %s''
                 [TrimSpace keyValues, Metric.Name parent, Submetric.Name sm]"
          by simp_all
        with \<open>metric_at h m = Some parent\<close> show ?thesis by blast
      next
        case None
        with Inr have fe: "findEqual h ?tags (Submetrics parent) = Inr None" by simp
        show ?thesis
        proof (cases "\<exists>k. Type parent = UnknownMetricType k")
          case True
          then obtain k where "Type parent = UnknownMetricType k" ..
          from AddSubmetric_unknown_kind[OF Some False fe this] assms show ?thesis by simp
        next
          case False
          then have "\<forall>k. Type parent \<noteq> UnknownMetricType k" by simp
          from AddSubmetric_new[OF Some \<open>TrimSpace keyValues \<noteq> []\<close> fe this] assms
          show ?thesis by auto
        qed
      qed
    qed
  qed
qed

theorem AddSubmetric_error_atomic_witness:
  "AddSubmetric (Some 0) '' '' exampleStore =
     (Inr (None, Some (fmtError ''submetric criteria for metric '%s' cannot be empty''
                         [''http_reqs''])), exampleStore)
   \<and> snd (AddSubmetric (Some 0) '' '' exampleStore) = exampleStore
   \<and> AddSubmetric (Some 0) ''method:GET,status:200'' exampleStore1 =
     (Inr (None, Some (fmtError ''sub-metric with params '%s' already exists for metric %s: %s''
        [''method:GET,status:200'', ''http_reqs'', ''http_reqs{status:200,method:GET}''])),
      exampleStore1)
   \<and> snd (AddSubmetric (Some 0) ''method:GET,status:200'' exampleStore1) = exampleStore1"
proof -
  have e1: "AddSubmetric (Some 0) '' '' exampleStore =
     (Inr (None, Some (fmtError ''submetric criteria for metric '%s' cannot be empty''
                         [''http_reqs''])),
      snd (AddSubmetric (Some 0) '' '' exampleStore))"
    by (simp add: example_blank_add)
  have e2: "AddSubmetric (Some 0) ''method:GET,status:200'' exampleStore1 =
     (Inr (None, Some (fmtError ''sub-metric with params '%s' already exists for metric %s: %s''
        [''method:GET,status:200'', ''http_reqs'', ''http_reqs{status:200,method:GET}''])),
      snd (AddSubmetric (Some 0) ''method:GET,status:200'' exampleStore1))"
    by (simp add: example_second_add)
  from AddSubmetric_error_atomic[OF e1]
  have s1: "snd (AddSubmetric (Some 0) '' '' exampleStore) = exampleStore" by simp
  from AddSubmetric_error_atomic[OF e2]
  have s2: "snd (AddSubmetric (Some 0) ''method:GET,status:200'' exampleStore1) = exampleStore1"
    by simp
  from e1 e2 s1 s2 show ?thesis by simp
qed

text \<open>
  C5, as the code has it. \<open>AddSubmetric\<close> trims the clause before anything else, and
  the trimmed text is what a successful call stores: the submetric's \<open>Suffix\<close> is the
  clause trimmed of surrounding white space, and its name is the parent's name
  followed by the trimmed clause in braces.
\<close>

theorem AddSubmetric_suffix_and_name:
  assumes "metric_at h m = Some parent"
    and "AddSubmetric m keyValues h = (Inr (Some sp, None), h')"
  shows "\<exists>s. submetric_at h' (Some sp) = Some s
             \<and> Suffix s = TrimSpace keyValues
             \<and> Submetric.Name s = Metric.Name parent @ ''{'' @ TrimSpace keyValues @ ''}''"
proof -
  from AddSubmetric_success[OF assms]
  have c: "TrimSpace keyValues \<noteq> []"
    "findEqual h (IntoSampleTags (rawTagsOf (Split (TrimSpace keyValues) CHR '','')))
       (Submetrics parent) = Inr None"
    "\<forall>k. Type parent \<noteq> UnknownMetricType k" by auto
  from AddSubmetric_new[OF assms(1) c] assms(2)
  have sp: "sp = length (submetrics h)"
    and "\<exists>ms. h' = \<lparr>metrics = ms, submetrics = submetrics h @
         [\<lparr>Submetric.Name = Metric.Name parent @ ''{'' @ TrimSpace keyValues @ ''}'',
           Suffix = TrimSpace keyValues,
           Tags = IntoSampleTags (rawTagsOf (Split (TrimSpace keyValues) CHR '','')),
           Metric = Some (length (metrics h)), Parent = m\<rparr>]\<rparr>"
    by auto
  then obtain ms where "h' = \<lparr>metrics = ms, submetrics = submetrics h @
         [\<lparr>Submetric.Name = Metric.Name parent @ ''{'' @ TrimSpace keyValues @ ''}'',
           Suffix = TrimSpace keyValues,
           Tags = IntoSampleTags (rawTagsOf (Split (TrimSpace keyValues) CHR '','')),
           Metric = Some (length (metrics h)), Parent = m\<rparr>]\<rparr>" by blast
  with sp show ?thesis by (simp add: submetric_at_new)
qed

theorem AddSubmetric_suffix_and_name_witness:
  "\<exists>s. submetric_at (snd (AddSubmetric (Some 0) '' a:1 '' exampleStore)) (Some 0) = Some s
       \<and> Suffix s = ''a:1'' \<and> Submetric.Name s = ''http_reqs{a:1}''"
proof -
  have m: "metric_at exampleStore (Some 0) = Some (metrics exampleStore ! 0)"
    by (simp add: metric_at_def exampleStore)
  have n: "Metric.Name (metrics exampleStore ! 0) = ''http_reqs''"
    by (simp add: exampleStore)
  have t: "TrimSpace '' a:1 '' = ''a:1''" by code_simp
  have a: "AddSubmetric (Some 0) '' a:1 '' exampleStore =
             (Inr (Some 0, None), snd (AddSubmetric (Some 0) '' a:1 '' exampleStore))"
    by (simp add: example_padded_add)
  from AddSubmetric_suffix_and_name[OF m a] show ?thesis by (simp add: n t)
qed

text \<open>
  C5 as stated fails: for the clause \<open>" a:1 "\<close> the stored \<open>Suffix\<close> is \<open>"a:1"\<close>, not
  the text the caller supplied, and the name is \<open>http_reqs{a:1}\<close>.
\<close>

theorem AddSubmetric_suffix_counterexample:
  "fst (AddSubmetric (Some 0) '' a:1 '' exampleStore) = Inr (Some 0, None)
   \<and> map Suffix (submetrics (snd (AddSubmetric (Some 0) '' a:1 '' exampleStore))) = [''a:1'']
   \<and> map Submetric.Name (submetrics (snd (AddSubmetric (Some 0) '' a:1 '' exampleStore)))
       = [''http_reqs{a:1}'']
   \<and> ''a:1'' \<noteq> '' a:1 ''"
  by (simp add: example_padded_add)

text \<open>
  C6. A successful call creates one submetric and one metric, at addresses that held
  nothing before, and changes nothing else but the parent's \<open>Submetrics\<close>. The new
  submetric points to the new metric, the backing metric, and has the receiver as its
  \<open>Parent\<close>. The backing metric has the submetric's name, the parent's kind and the
  parent's value type, the sink of that kind, no submetrics of its own, and its \<open>Sub\<close>
  points back to the submetric. The parent is as before except that its \<open>Submetrics\<close>
  is the old sequence with the new submetric at its end. Every other metric and every
  other submetric is as before. A call succeeds only on a parent of a kind that has a
  sink.
\<close>

theorem AddSubmetric_backing_metric:
  assumes "metric_at h m = Some parent"
    and "AddSubmetric m keyValues h = (Inr (Some sp, None), h')"
  shows "\<exists>ma s b.
           sp = length (submetrics h) \<and> ma = length (metrics h)
           \<and> submetric_at h (Some sp) = None \<and> metric_at h (Some ma) = None
           \<and> Some ma \<noteq> m
           \<and> submetric_at h' (Some sp) = Some s \<and> metric_at h' (Some ma) = Some b
           \<and> s = \<lparr>Submetric.Name = Metric.Name parent @ ''{'' @ TrimSpace keyValues @ ''}'',
                   Suffix = TrimSpace keyValues,
                   Tags = IntoSampleTags (rawTagsOf (Split (TrimSpace keyValues) CHR '','')),
                   Metric = Some ma, Parent = m\<rparr>
           \<and> b = \<lparr>Metric.Name = Submetric.Name s, Type = Type parent,
                   Contains = Contains parent, Tainted = None, Thresholds = default,
                   Submetrics = [], Sub = Some sp,
                   Sink = (case Type parent of
                             Counter \<Rightarrow> Some CounterSink
                           | Gauge \<Rightarrow> Some GaugeSink
                           | Trend \<Rightarrow> Some TrendSink
                           | Rate \<Rightarrow> Some RateSink
                           | UnknownMetricType _ \<Rightarrow> None),
                   Observed = False\<rparr>
           \<and> metric_at h' m = Some (parent\<lparr>Submetrics := Submetrics parent @ [Some sp]\<rparr>)
           \<and> length (metrics h') = Suc (length (metrics h))
           \<and> length (submetrics h') = Suc (length (submetrics h))
           \<and> (\<forall>q x. q \<noteq> m \<and> metric_at h q = Some x \<longrightarrow> metric_at h' q = Some x)
           \<and> (\<forall>q x. submetric_at h q = Some x \<longrightarrow> submetric_at h' q = Some x)
           \<and> Type parent \<in> {Counter, Gauge, Trend, Rate}"
proof -
  from AddSubmetric_success[OF assms]
  have c: "TrimSpace keyValues \<noteq> []"
    "findEqual h (IntoSampleTags (rawTagsOf (Split (TrimSpace keyValues) CHR '','')))
       (Submetrics parent) = Inr None"
    "\<forall>k. Type parent \<noteq> UnknownMetricType k" by auto
  from assms(1) obtain a where a: "m = Some a" "a < length (metrics h)"
    by (auto simp: metric_at_def split: option.splits if_splits)
  let ?n = "length (submetrics h)"
  let ?ma = "length (metrics h)"
  let ?name = "Metric.Name parent @ ''{'' @ TrimSpace keyValues @ ''}''"
  let ?s = "\<lparr>Submetric.Name = ?name, Suffix = TrimSpace keyValues,
           Tags = IntoSampleTags (rawTagsOf (Split (TrimSpace keyValues) CHR '','')),
           Metric = Some ?ma, Parent = m\<rparr>"
  let ?p' = "parent\<lparr>Submetrics := Submetrics parent @ [Some ?n]\<rparr>"
  let ?b = "\<lparr>Metric.Name = ?name, Type = Type parent, Contains = Contains parent,
            Tainted = None, Thresholds = default, Submetrics = [], Sub = Some ?n,
            Sink = (case Type parent of
                      Counter \<Rightarrow> Some CounterSink
                    | Gauge \<Rightarrow> Some GaugeSink
                    | Trend \<Rightarrow> Some TrendSink
                    | Rate \<Rightarrow> Some RateSink
                    | UnknownMetricType _ \<Rightarrow> None),
            Observed = False\<rparr>"
  from AddSubmetric_new_store[OF assms(1) c] assms(2)
  have sp: "sp = ?n"
    and h': "h' = \<lparr>metrics = (metrics h)[the m := ?p'] @ [?b],
                    submetrics = submetrics h @ [?s]\<rparr>"
    by simp_all
  have 1: "submetric_at h (Some ?n) = None" "metric_at h (Some ?ma) = None"
    by (simp_all add: submetric_at_def metric_at_def)
  have 2: "Some ?ma \<noteq> m" using a by simp
  have 3: "submetric_at h' (Some ?n) = Some ?s"
    unfolding h' by (rule submetric_at_new)
  have 4: "metric_at h' (Some ?ma) = Some ?b"
    unfolding h' by (simp add: metric_at_def nth_append)
  have 5: "metric_at h' m = Some ?p'"
    unfolding h' using a by (simp add: metric_at_def nth_append)
  have 6: "length (metrics h') = Suc ?ma" "length (submetrics h') = Suc ?n"
    unfolding h' by simp_all
  have 7: "\<forall>q x. q \<noteq> m \<and> metric_at h q = Some x \<longrightarrow> metric_at h' q = Some x"
    unfolding h' using a
    by (auto simp: metric_at_def nth_append split: option.splits if_splits)
  have 8: "\<forall>q x. submetric_at h q = Some x \<longrightarrow> submetric_at h' q = Some x"
    unfolding h' by (auto intro: submetric_at_grow)
  from c(3) have 9: "Type parent \<in> {Counter, Gauge, Trend, Rate}"
    by (cases "Type parent") auto
  show ?thesis
    apply (rule exI[of _ ?ma], rule exI[of _ ?s], rule exI[of _ ?b])
    using sp 1 2 3 4 5 6 7 8 9 by simp
qed

theorem AddSubmetric_backing_metric_witness:
  "submetric_at exampleStore (Some 0) = None \<and> metric_at exampleStore (Some 1) = None
   \<and> submetric_at exampleStore1 (Some 0)
       = Some \<lparr>Submetric.Name = ''http_reqs{status:200,method:GET}'',
               Suffix = ''status:200,method:GET'',
               Tags = [''status'' \<mapsto> ''200'', ''method'' \<mapsto> ''GET''],
               Metric = Some 1, Parent = Some 0\<rparr>
   \<and> metric_at exampleStore1 (Some 1)
       = Some \<lparr>Metric.Name = ''http_reqs{status:200,method:GET}'', Type = Counter,
               Contains = Default, Tainted = None, Thresholds = (), Submetrics = [],
               Sub = Some 0, Sink = Some CounterSink, Observed = False\<rparr>
   \<and> metric_at exampleStore1 (Some 0)
       = Some \<lparr>Metric.Name = ''http_reqs'', Type = Counter,
               Contains = Default, Tainted = None, Thresholds = (), Submetrics = [Some 0],
               Sub = None, Sink = Some CounterSink, Observed = False\<rparr>
   \<and> length (metrics exampleStore1) = 2 \<and> length (submetrics exampleStore1) = 1"
proof -
  have m: "metric_at exampleStore (Some 0) = Some (metrics exampleStore ! 0)"
    by (simp add: metric_at_def exampleStore)
  have n: "metrics exampleStore ! 0 =
             \<lparr>Metric.Name = ''http_reqs'', Type = Counter, Contains = Default,
              Tainted = None, Thresholds = (), Submetrics = [], Sub = None,
              Sink = Some CounterSink, Observed = False\<rparr>"
    "length (metrics exampleStore) = 1" "length (submetrics exampleStore) = 0"
    by (simp_all add: exampleStore)
  have t: "TrimSpace ''status:200,method:GET'' = ''status:200,method:GET''" by code_simp
  have a: "AddSubmetric (Some 0) ''status:200,method:GET'' exampleStore =
             (Inr (Some 0, None), exampleStore1)"
    by (simp add: exampleStore1_def example_first_add)
  from AddSubmetric_backing_metric[OF m a] show ?thesis
    by (simp add: n t rawTags_status_method IntoSampleTags_def)
qed

text \<open>
  C1. (a) On a parent whose \<open>Submetrics\<close> entries all point to submetrics, a clause that
  is not empty after trimming and whose tag set \<open>IsEqual\<close> finds equal to the tag set of
  an existing submetric makes \<open>AddSubmetric\<close> fail with the duplicate error, which
  names the trimmed clause, the parent and an existing submetric with that tag set,
  and the store is as before. (b) Hence \<open>AddSubmetric\<close> keeps the parent's submetrics
  free of two entries with equal tag sets. (c) After \<open>"status:200,method:GET"\<close> the
  clause \<open>"method:GET,status:200"\<close> is rejected as a duplicate. For (b): a metric that
  \<open>newMetric\<close> has just created has no submetrics, and each call of \<open>AddSubmetric\<close>
  on a parent without two equal tag sets leaves it without two equal tag sets.
\<close>

theorem AddSubmetric_rejects_equal_tags:
  "(metric_at h m = Some parent \<and> TrimSpace keyValues \<noteq> ''''
      \<and> list_all (\<lambda>p. submetric_at h p \<noteq> None) (Submetrics parent)
      \<and> (\<exists>p\<in>set (Submetrics parent). \<exists>s. submetric_at h p = Some s
            \<and> IsEqual (Tags s)
                (IntoSampleTags (rawTagsOf (Split (TrimSpace keyValues) CHR '','')))) \<longrightarrow>
      (\<exists>sm. AddSubmetric m keyValues h =
         (Inr (None,
            Some (fmtError ''sub-metric with params '%s' already exists for metric %s: %s''
                    [TrimSpace keyValues, Metric.Name parent, Submetric.Name sm])), h)
         \<and> IsEqual (Tags sm)
             (IntoSampleTags (rawTagsOf (Split (TrimSpace keyValues) CHR '','')))
         \<and> (\<exists>p\<in>set (Submetrics parent). submetric_at h p = Some sm)))
   \<and> (newMetric name mt vt g = (Some a, g') \<longrightarrow> distinctSubmetrics g' (Some a))
   \<and> (distinctSubmetrics h m \<longrightarrow> distinctSubmetrics (snd (AddSubmetric m keyValues h)) m)
   \<and> fst (AddSubmetric (Some 0) ''status:200,method:GET'' exampleStore) = Inr (Some 0, None)
   \<and> AddSubmetric (Some 0) ''method:GET,status:200'' exampleStore1 =
       (Inr (None,
          Some (fmtError ''sub-metric with params '%s' already exists for metric %s: %s''
                  [''method:GET,status:200'', ''http_reqs'',
                   ''http_reqs{status:200,method:GET}''])), exampleStore1)"
proof -
  let ?tags = "IntoSampleTags (rawTagsOf (Split (TrimSpace keyValues) CHR '',''))"
  have a: "metric_at h m = Some parent \<and> TrimSpace keyValues \<noteq> ''''
      \<and> list_all (\<lambda>p. submetric_at h p \<noteq> None) (Submetrics parent)
      \<and> (\<exists>p\<in>set (Submetrics parent). \<exists>s. submetric_at h p = Some s
            \<and> IsEqual (Tags s) ?tags) \<longrightarrow>
      (\<exists>sm. AddSubmetric m keyValues h =
         (Inr (None,
            Some (fmtError ''sub-metric with params '%s' already exists for metric %s: %s''
                    [TrimSpace keyValues, Metric.Name parent, Submetric.Name sm])), h)
         \<and> IsEqual (Tags sm) ?tags
         \<and> (\<exists>p\<in>set (Submetrics parent). submetric_at h p = Some sm))"
  proof
    assume h: "metric_at h m = Some parent \<and> TrimSpace keyValues \<noteq> ''''
      \<and> list_all (\<lambda>p. submetric_at h p \<noteq> None) (Submetrics parent)
      \<and> (\<exists>p\<in>set (Submetrics parent). \<exists>s. submetric_at h p = Some s
            \<and> IsEqual (Tags s) ?tags)"
    then have p: "metric_at h m = Some parent" and ne: "TrimSpace keyValues \<noteq> []"
      and v: "list_all (\<lambda>p. submetric_at h p \<noteq> None) (Submetrics parent)"
      and e: "\<exists>p\<in>set (Submetrics parent). \<exists>s. submetric_at h p = Some s
            \<and> IsEqual (Tags s) ?tags" by auto
    from findEqual_Some[OF v e] obtain sm where
      f: "findEqual h ?tags (Submetrics parent) = Inr (Some sm)"
      and q: "IsEqual (Tags sm) ?tags" "\<exists>p\<in>set (Submetrics parent). submetric_at h p = Some sm"
      by blast
    from AddSubmetric_found[OF p ne f] q
    show "\<exists>sm. AddSubmetric m keyValues h =
         (Inr (None,
            Some (fmtError ''sub-metric with params '%s' already exists for metric %s: %s''
                    [TrimSpace keyValues, Metric.Name parent, Submetric.Name sm])), h)
         \<and> IsEqual (Tags sm) ?tags
         \<and> (\<exists>p\<in>set (Submetrics parent). submetric_at h p = Some sm)"
      by blast
  qed
  have b: "distinctSubmetrics h m \<longrightarrow> distinctSubmetrics (snd (AddSubmetric m keyValues h)) m"
  proof
    assume d: "distinctSubmetrics h m"
    then obtain par where p: "metric_at h m = Some par"
      by (auto simp: distinctSubmetrics_def split: option.splits)
    from AddSubmetric_store_cases[OF p, of keyValues]
    consider "snd (AddSubmetric m keyValues h) = h"
      | x where "snd (AddSubmetric m keyValues h) =
                  \<lparr>metrics = metrics h, submetrics = submetrics h @ [x]\<rparr>"
      | b where "findEqual h ?tags (Submetrics par) = Inr None"
          "snd (AddSubmetric m keyValues h) =
                 \<lparr>metrics =
                    (metrics h)[the m := par\<lparr>Submetrics :=
                        Submetrics par @ [Some (length (submetrics h))]\<rparr>] @ [b],
                  submetrics = submetrics h @
                    [\<lparr>Submetric.Name = Metric.Name par @ ''{'' @ TrimSpace keyValues @ ''}'',
                      Suffix = TrimSpace keyValues, Tags = ?tags,
                      Metric = Some (length (metrics h)), Parent = m\<rparr>]\<rparr>"
      by blast
    then show "distinctSubmetrics (snd (AddSubmetric m keyValues h)) m"
    proof cases
      case 1
      with d show ?thesis by simp
    next
      case 2
      with distinctSubmetrics_grow[OF d, of x] show ?thesis by simp
    next
      case 3
      from distinctSubmetrics_append[OF d p 3(1), of _ b] 3(2) show ?thesis by simp
    qed
  qed
  have c1: "fst (AddSubmetric (Some 0) ''status:200,method:GET'' exampleStore)
              = Inr (Some 0, None)"
    by (simp add: example_first_add)
  have b0: "newMetric name mt vt g = (Some a, g') \<longrightarrow> distinctSubmetrics g' (Some a)"
    by (auto dest: newMetric_distinctSubmetrics)
  from a b0 b c1 example_second_add show ?thesis by (intro conjI)
qed

theorem AddSubmetric_rejects_equal_tags_witness:
  "distinctSubmetrics exampleStore (Some 0)
   \<and> distinctSubmetrics exampleStore1 (Some 0)
   \<and> (\<exists>sm. AddSubmetric (Some 0) ''method:GET,status:200'' exampleStore1 =
         (Inr (None,
            Some (fmtError ''sub-metric with params '%s' already exists for metric %s: %s''
                    [''method:GET,status:200'', ''http_reqs'', Submetric.Name sm])),
          exampleStore1)
         \<and> submetric_at exampleStore1 (Some 0) = Some sm)"
proof -
  have t: "TrimSpace ''method:GET,status:200'' = ''method:GET,status:200''" by code_simp
  have e: "newMetric ''http_reqs'' Counter [] \<lparr>metrics = [], submetrics = []\<rparr>
             = (Some 0, exampleStore :: unit store)"
    by (simp add: exampleStore newMetric_def new_Metric_def)
  note th0 = AddSubmetric_rejects_equal_tags[where h = exampleStore and m = "Some 0"
               and keyValues = "''status:200,method:GET''" and name = "''http_reqs''"
               and mt = Counter and vt = "[]" and g = "\<lparr>metrics = [], submetrics = []\<rparr>"
               and a = 0 and g' = exampleStore]
  from th0 e have d0: "distinctSubmetrics exampleStore (Some 0)" by blast
  from th0 d0 have d1: "distinctSubmetrics exampleStore1 (Some 0)"
    by (simp add: exampleStore1_def)
  have m: "metric_at exampleStore1 (Some 0) = Some (metrics exampleStore1 ! 0)"
    by (simp add: metric_at_def exampleStore1)
  have n: "Metric.Name (metrics exampleStore1 ! 0) = ''http_reqs''"
    "Submetrics (metrics exampleStore1 ! 0) = [Some 0]"
    by (simp_all add: exampleStore1)
  have s: "submetric_at exampleStore1 (Some 0) = Some (submetrics exampleStore1 ! 0)"
    by (simp add: submetric_at_def exampleStore1)
  have g: "Tags (submetrics exampleStore1 ! 0) = [''status'' \<mapsto> ''200'', ''method'' \<mapsto> ''GET'']"
    by (simp add: exampleStore1)
  note th1 = AddSubmetric_rejects_equal_tags[where h = exampleStore1 and m = "Some 0"
               and parent = "metrics exampleStore1 ! 0"
               and keyValues = "''method:GET,status:200''", THEN conjunct1]
  from th1 m n s g
  have "\<exists>sm. AddSubmetric (Some 0) ''method:GET,status:200'' exampleStore1 =
         (Inr (None,
            Some (fmtError ''sub-metric with params '%s' already exists for metric %s: %s''
                    [''method:GET,status:200'', ''http_reqs'', Submetric.Name sm])),
          exampleStore1)
         \<and> submetric_at exampleStore1 (Some 0) = Some sm"
    by (simp add: t rawTags_method_status IsEqual_def IntoSampleTags_def)
  with d0 d1 show ?thesis by (intro conjI)
qed

text \<open>
  C4, as the code has it. The key and the value of a segment are stripped with
  \<open>strings.Trim\<close> and the cutset of the two quote characters: every leading and every
  trailing \<open>'\<close> or \<open>"\<close> is removed, on each end by itself, in any number and any mix.
  What is stored neither starts nor ends with a quote character, and it differs from
  the trimmed part only by quote characters before and after it.
\<close>

theorem addRawTag_strips_every_quote:
  assumes "kv \<noteq> ''''"
  shows "\<exists>key val. addRawTag rawTags kv = rawTags(key \<mapsto> val)
     \<and> (\<exists>pre post. TrimSpace (SplitN kv CHR '':'' 2 ! 0) = pre @ key @ post
           \<and> set pre \<subseteq> set quotes \<and> set post \<subseteq> set quotes)
     \<and> (key \<noteq> '''' \<longrightarrow> hd key \<notin> set quotes \<and> last key \<notin> set quotes)
     \<and> (if length (SplitN kv CHR '':'' 2) = 2
         then (\<exists>pre post. TrimSpace (SplitN kv CHR '':'' 2 ! 1) = pre @ val @ post
                 \<and> set pre \<subseteq> set quotes \<and> set post \<subseteq> set quotes)
              \<and> (val \<noteq> '''' \<longrightarrow> hd val \<notin> set quotes \<and> last val \<notin> set quotes)
         else val = '''')"
proof -
  let ?parts = "SplitN kv CHR '':'' 2"
  let ?key = "Trim (TrimSpace (?parts ! 0)) quotes"
  let ?val = "Trim (TrimSpace (?parts ! 1)) quotes"
  from Trim_decompose[of "TrimSpace (?parts ! 0)" quotes]
  have k: "\<exists>pre post. TrimSpace (?parts ! 0) = pre @ ?key @ post
           \<and> set pre \<subseteq> set quotes \<and> set post \<subseteq> set quotes"
    "?key \<noteq> '''' \<longrightarrow> hd ?key \<notin> set quotes \<and> last ?key \<notin> set quotes"
    by blast+
  from Trim_decompose[of "TrimSpace (?parts ! 1)" quotes]
  have v: "\<exists>pre post. TrimSpace (?parts ! 1) = pre @ ?val @ post
           \<and> set pre \<subseteq> set quotes \<and> set post \<subseteq> set quotes"
    "?val \<noteq> '''' \<longrightarrow> hd ?val \<notin> set quotes \<and> last ?val \<notin> set quotes"
    by blast+
  show ?thesis
  proof (cases "length ?parts = 2")
    case True
    with assms have "addRawTag rawTags kv = rawTags(?key \<mapsto> ?val)"
      by (simp add: addRawTag_def Let_def)
    with k v True show ?thesis
      by (intro exI[of _ ?key] exI[of _ ?val]) simp
  next
    case False
    with assms have "addRawTag rawTags kv = rawTags(?key \<mapsto> '''')"
      by (simp add: addRawTag_def Let_def)
    with k False show ?thesis
      by (intro exI[of _ ?key] exI[of _ "''''"]) simp
  qed
qed

theorem addRawTag_strips_every_quote_witness:
  "quotedClause \<noteq> ''''
   \<and> (\<exists>key val. addRawTag Map.empty quotedClause = [key \<mapsto> val]
     \<and> (\<exists>pre post. TrimSpace (SplitN quotedClause CHR '':'' 2 ! 0) = pre @ key @ post
           \<and> set pre \<subseteq> set quotes \<and> set post \<subseteq> set quotes)
     \<and> (key \<noteq> '''' \<longrightarrow> hd key \<notin> set quotes \<and> last key \<notin> set quotes)
     \<and> (if length (SplitN quotedClause CHR '':'' 2) = 2
         then (\<exists>pre post. TrimSpace (SplitN quotedClause CHR '':'' 2 ! 1) = pre @ val @ post
                 \<and> set pre \<subseteq> set quotes \<and> set post \<subseteq> set quotes)
              \<and> (val \<noteq> '''' \<longrightarrow> hd val \<notin> set quotes \<and> last val \<notin> set quotes)
         else val = ''''))"
proof -
  have ne: "quotedClause \<noteq> ''''" by (simp add: quotedClause_def)
  from ne addRawTag_strips_every_quote[OF ne, of Map.empty] show ?thesis by (rule conjI)
qed

text \<open>
  C4 as stated fails: for the clause \<open>"a':''v''\<close> the mismatched quotes around the key
  and both layers of quotes around the value are removed, and the submetric carries
  the tag \<open>a\<close> with the value \<open>v\<close>.
\<close>

theorem AddSubmetric_quotes_counterexample:
  "fst (AddSubmetric (Some 0) quotedClause exampleStore) = Inr (Some 0, None)
   \<and> Tags (hd (submetrics (snd (AddSubmetric (Some 0) quotedClause exampleStore)))) ''a''
       = Some ''v''
   \<and> Tags (hd (submetrics (snd (AddSubmetric (Some 0) quotedClause exampleStore))))
         [CHR 0x22, CHR ''a'', CHR 0x27] = None"
  by (simp add: example_quoted_add)

text \<open>
  C10, as the code has it. A clause that after trimming is not empty and consists of
  commas only passes the emptiness check, and every segment is skipped, so the tag set
  is built from the empty mapping. On a parent of a kind that has a sink and whose
  submetrics all carry at least one tag, a submetric with no tags is created and
  appended. (When a submetric of the parent has no tags already, the duplicate check
  rejects the call.)
\<close>

theorem AddSubmetric_only_commas:
  assumes "metric_at h m = Some parent"
    and "TrimSpace keyValues \<noteq> ''''" and "set (TrimSpace keyValues) \<subseteq> {CHR '',''}"
    and "Type parent \<in> {Counter, Gauge, Trend, Rate}"
    and "\<forall>p\<in>set (Submetrics parent). \<exists>s. submetric_at h p = Some s \<and> Tags s \<noteq> Map.empty"
  shows "rawTagsOf (Split (TrimSpace keyValues) CHR '','') = Map.empty
         \<and> (\<exists>sp h' s parent'.
               AddSubmetric m keyValues h = (Inr (Some sp, None), h')
               \<and> submetric_at h' (Some sp) = Some s \<and> Tags s = Map.empty
               \<and> metric_at h' m = Some parent'
               \<and> Submetrics parent' = Submetrics parent @ [Some sp])"
proof -
  let ?n = "length (submetrics h)"
  from Split_only_sep[OF assms(3)]
  have r: "rawTagsOf (Split (TrimSpace keyValues) CHR '','') = Map.empty"
    unfolding rawTagsOf_def by (rule rawTagsOf_empty_segments)
  from assms(5) have fe: "findEqual h (IntoSampleTags (rawTagsOf (Split (TrimSpace keyValues) CHR '','')))
       (Submetrics parent) = Inr None"
    by (simp add: findEqual_None r IntoSampleTags_def IsEqual_def)
  from assms(4) have k: "\<forall>k. Type parent \<noteq> UnknownMetricType k" by auto
  from assms(1) obtain a where a: "m = Some a" "a < length (metrics h)"
    by (auto simp: metric_at_def split: option.splits if_splits)
  let ?p' = "parent\<lparr>Submetrics := Submetrics parent @ [Some ?n]\<rparr>"
  let ?s = "\<lparr>Submetric.Name = Metric.Name parent @ ''{'' @ TrimSpace keyValues @ ''}'',
           Suffix = TrimSpace keyValues,
           Tags = IntoSampleTags (rawTagsOf (Split (TrimSpace keyValues) CHR '','')),
           Metric = Some (length (metrics h)), Parent = m\<rparr>"
  from AddSubmetric_new[OF assms(1,2) fe k]
  obtain b where ad: "AddSubmetric m keyValues h =
     (Inr (Some ?n, None), \<lparr>metrics = (metrics h)[the m := ?p'] @ [b],
                             submetrics = submetrics h @ [?s]\<rparr>)"
    by blast
  let ?h' = "\<lparr>metrics = (metrics h)[the m := ?p'] @ [b], submetrics = submetrics h @ [?s]\<rparr>"
  have 1: "submetric_at ?h' (Some ?n) = Some ?s" by (rule submetric_at_new)
  have 2: "Tags ?s = Map.empty" by (simp add: r IntoSampleTags_def)
  have 3: "metric_at ?h' m = Some ?p'" using a by (simp add: metric_at_def nth_append)
  have "\<exists>sp h' s parent'.
               AddSubmetric m keyValues h = (Inr (Some sp, None), h')
               \<and> submetric_at h' (Some sp) = Some s \<and> Tags s = Map.empty
               \<and> metric_at h' m = Some parent'
               \<and> Submetrics parent' = Submetrics parent @ [Some sp]"
    apply (rule exI[of _ ?n], rule exI[of _ ?h'], rule exI[of _ ?s], rule exI[of _ ?p'])
    using ad 1 2 3 by simp
  with r show ?thesis by (rule conjI)
qed

theorem AddSubmetric_only_commas_witness:
  "rawTagsOf (Split (TrimSpace '',,'') CHR '','') = Map.empty
   \<and> (\<exists>sp h' s parent'.
         AddSubmetric (Some 0) '',,'' exampleStore1 = (Inr (Some sp, None), h')
         \<and> submetric_at h' (Some sp) = Some s \<and> Tags s = Map.empty
         \<and> metric_at h' (Some 0) = Some parent'
         \<and> Submetrics parent' = [Some 0, Some sp])"
proof -
  have m: "metric_at exampleStore1 (Some 0) = Some (metrics exampleStore1 ! 0)"
    by (simp add: metric_at_def exampleStore1)
  have t: "TrimSpace '',,'' \<noteq> ''''" "set (TrimSpace '',,'') \<subseteq> {CHR '',''}"
    by (simp_all add: rawTags_commas)
  have k: "Type (metrics exampleStore1 ! 0) \<in> {Counter, Gauge, Trend, Rate}"
    by (simp add: exampleStore1)
  have n: "Submetrics (metrics exampleStore1 ! 0) = [Some 0]"
    by (simp add: exampleStore1)
  have g: "[''status'' \<mapsto> ''200'', ''method'' \<mapsto> ''GET''] \<noteq> Map.empty" by simp
  have v: "\<forall>p\<in>set (Submetrics (metrics exampleStore1 ! 0)).
             \<exists>s. submetric_at exampleStore1 p = Some s \<and> Tags s \<noteq> Map.empty"
    unfolding n using g by (simp add: submetric_at_def exampleStore1)
  from AddSubmetric_only_commas[OF m t k v] show ?thesis by (simp add: n)
qed

text \<open>
  C10 as stated fails: after \<open>AddSubmetric(",")\<close> has created a submetric with no
  tags, \<open>AddSubmetric(",,")\<close> on the same parent is rejected as a duplicate. No
  submetric is created.
\<close>

theorem AddSubmetric_only_commas_counterexample:
  "fst (AddSubmetric (Some 0) '','' exampleStore) = Inr (Some 0, None)
   \<and> fst (AddSubmetric (Some 0) '',,'' (snd (AddSubmetric (Some 0) '','' exampleStore))) =
     Inr (None, Some (fmtError ''sub-metric with params '%s' already exists for metric %s: %s''
                        ['',,'', ''http_reqs'', ''http_reqs{,}'']))"
  using example_commas_second_add by (simp add: example_comma_add)

end
